theory Spec2Isabelle
  imports Complex_Main "HOL-Library.List_Lexorder" "HOL-Library.Product_Lexorder"
    "HOL-Library.Multiset"
begin

section \<open>Data model\<close>

text \<open>
  The program of \<^verbatim>\<open>src/main.py\<close> reads a table of meal-card transactions into a pandas
  DataFrame and computes aggregates over it.

  \<^item> A Python \<^verbatim>\<open>str\<close> is a sequence of Unicode code points: \<open>pystr\<close>.
  \<^item> A pandas Timestamp is a count of time units since 1970-01-01 00:00:00 (naive local
    time); the model counts whole seconds. \<open>dt.date\<close>, \<open>dt.hour\<close>, \<open>dt.minute\<close>,
    \<open>dt.second\<close> and \<open>dt.year\<close> are computed from that count.
  \<^item> A cell of the time column is a text that still has to be parsed (as read from a CSV
    file), a Timestamp (as read from an Excel sheet, or after \<^verbatim>\<open>pd.to_datetime\<close>), or
    missing (\<open>NaT\<close>). How pandas parses a text is not part of the repository: every
    function that parses takes the parser as its first argument \<open>parse\<close>, applied cell by
    cell; \<open>None\<close> is a text that \<^verbatim>\<open>errors='coerce'\<close> turns into \<open>NaT\<close>.
  \<^item> A missing value (\<open>NaN\<close>) of another column is \<open>None\<close>.
  \<^item> Amounts are exact rationals: the rounding of binary floating point is left out.
  \<^item> The column added by \<^verbatim>\<open>pd.cut\<close> (U+9910 U+6B21, the meal period) is categorical
    with four categories: the datatype \<open>period\<close>. Before classification it is absent,
    which the model writes as \<open>None\<close> in every row.
  \<^item> The location column (U+4EA4 U+6613 U+5730 U+70B9) may be absent from the table
    (\<open>has_location\<close>); when it is present its cells are texts or missing. The time,
    event-kind and amount columns are required.
\<close>

type_synonym pystr = "nat list"

datatype period = Breakfast | Lunch | Dinner | LateSnack

datatype time_cell = Text pystr | Stamp int | NaT

record row =
  time :: time_cell
  event :: "pystr option"
  location :: "pystr option"
  amount :: "rat option"
  meal :: "period option"

record table =
  has_location :: bool
  rows :: "row list"

datatype skip =
  No_time_data
  | No_rows_in_window
  | No_year_rows
  | No_valid_dates

datatype exn = KeyError | AttributeError | FileNotFoundError

text \<open>
  What a chart function did: it computed its aggregate (the values it then draws), it
  printed a message and returned without a chart, or it raised.
\<close>

datatype 'a outcome = Done 'a | Skipped skip | Raised exn

subsection \<open>Timestamps\<close>

definition date_of :: "int \<Rightarrow> int" where
  "date_of t = t div 86400"

definition hour_of :: "int \<Rightarrow> int" where
  "hour_of t = (t mod 86400) div 3600"

definition minute_of :: "int \<Rightarrow> int" where
  "minute_of t = (t mod 3600) div 60"

definition second_of :: "int \<Rightarrow> int" where
  "second_of t = t mod 60"

text \<open>The Timestamp of day number \<open>d\<close> (days since 1970-01-01) at \<open>h:m:s\<close>.\<close>

definition mk_ts :: "int \<Rightarrow> int \<Rightarrow> int \<Rightarrow> int \<Rightarrow> int" where
  "mk_ts d h m s = d * 86400 + h * 3600 + m * 60 + s"

text \<open>The proleptic Gregorian year of a day number (\<open>dt.year\<close>).\<close>

definition year_of_days :: "int \<Rightarrow> int" where
  "year_of_days z =
     (let z' = z + 719468;
          era = z' div 146097;
          doe = z' mod 146097;
          yoe = (doe - doe div 1460 + doe div 36524 - doe div 146096) div 365;
          doy = doe - (365 * yoe + yoe div 4 - yoe div 100);
          mp = (5 * doy + 2) div 153
      in yoe + era * 400 + (if mp < 10 then 0 else 1))"

definition year_of :: "int \<Rightarrow> int" where
  "year_of t = year_of_days (date_of t)"

text \<open>\<^verbatim>\<open>pd.to_datetime(column, errors='coerce')\<close>, on one cell.\<close>

fun to_datetime :: "(pystr \<Rightarrow> int option) \<Rightarrow> time_cell \<Rightarrow> time_cell" where
  "to_datetime parse (Text s) = (case parse s of None \<Rightarrow> NaT | Some t \<Rightarrow> Stamp t)"
| "to_datetime parse (Stamp t) = Stamp t"
| "to_datetime parse NaT = NaT"

definition coerce_time :: "(pystr \<Rightarrow> int option) \<Rightarrow> table \<Rightarrow> table" where
  "coerce_time parse df =
     df\<lparr>rows := map (\<lambda>r. r\<lparr>time := to_datetime parse (time r)\<rparr>) (rows df)\<rparr>"

text \<open>\<^verbatim>\<open>df.dropna(subset=[time column])\<close>: only Timestamps stay.\<close>

fun is_stamp :: "time_cell \<Rightarrow> bool" where
  "is_stamp (Stamp t) = True"
| "is_stamp _ = False"

definition dropna_time :: "table \<Rightarrow> table" where
  "dropna_time df = df\<lparr>rows := filter (\<lambda>r. is_stamp (time r)) (rows df)\<rparr>"

fun stamp_of :: "time_cell \<Rightarrow> int option" where
  "stamp_of (Stamp t) = Some t"
| "stamp_of _ = None"

section \<open>Meal-period classifier\<close>

text \<open>
  \<^verbatim>\<open>minutes = dt.hour * 60 + dt.minute\<close>; of a cell that is no Timestamp it is missing.
\<close>

definition clock_minute :: "int \<Rightarrow> int" where
  "clock_minute t = hour_of t * 60 + minute_of t"

definition minutes_cell :: "time_cell \<Rightarrow> int option" where
  "minutes_cell c = map_option clock_minute (stamp_of c)"

text \<open>
  \<^verbatim>\<open>pd.cut(x, bins=bins, labels=labels, right=False)\<close> on one value: the label of the
  first interval \<open>[bins[i], bins[i+1])\<close> that holds \<open>x\<close>, missing when there is none.
\<close>

fun cut :: "int list \<Rightarrow> 'a list \<Rightarrow> int \<Rightarrow> 'a option" where
  "cut (lo # hi # bs) (l # ls) x =
     (if lo \<le> x \<and> x < hi then Some l else cut (hi # bs) ls x)"
| "cut _ _ _ = None"

definition bins :: "int list" where
  "bins = [6 * 60 + 30, 10 * 60, 15 * 60, 19 * 60 + 30, 22 * 60 + 30]"

definition labels :: "period list" where
  "labels = [Breakfast, Lunch, Dinner, LateSnack]"

definition cut_cell :: "time_cell \<Rightarrow> period option" where
  "cut_cell c = (case minutes_cell c of None \<Rightarrow> None | Some m \<Rightarrow> cut bins labels m)"

definition assign_meal :: "table \<Rightarrow> table" where
  "assign_meal df = df\<lparr>rows := map (\<lambda>r. r\<lparr>meal := cut_cell (time r)\<rparr>) (rows df)\<rparr>"

definition dropna_meal :: "table \<Rightarrow> table" where
  "dropna_meal df = df\<lparr>rows := filter (\<lambda>r. meal r \<noteq> None) (rows df)\<rparr>"

text \<open>
  The function returns the triple \<^verbatim>\<open>(df, labels, err)\<close>, each component \<^verbatim>\<open>None\<close>
  where the source returns \<^verbatim>\<open>None\<close>.
\<close>

definition prepare_meal_period_data ::
  "(pystr \<Rightarrow> int option) \<Rightarrow> table \<Rightarrow> table option \<times> period list option \<times> skip option" where
  "prepare_meal_period_data parse spending_df =
     (let df = dropna_time (coerce_time parse spending_df) in
      if rows df = [] then (None, None, Some No_time_data)
      else
        let df = dropna_meal (assign_meal df) in
        if rows df = [] then (None, Some labels, Some No_rows_in_window)
        else (Some df, Some labels, None))"

text \<open>The rows of the table a call returned, none when it returned no table.\<close>

definition returned_rows :: "table option \<times> period list option \<times> skip option \<Rightarrow> row list" where
  "returned_rows res = (case fst res of None \<Rightarrow> [] | Some df \<Rightarrow> rows df)"

text \<open>What the classifier does to one row: the row it keeps, or nothing.\<close>

definition classify_row :: "(pystr \<Rightarrow> int option) \<Rightarrow> row \<Rightarrow> row option" where
  "classify_row parse r =
     (case to_datetime parse (time r) of
        Stamp t \<Rightarrow>
          (case cut bins labels (clock_minute t) of
             None \<Rightarrow> None
           | Some p \<Rightarrow> Some (r\<lparr>time := Stamp t, meal := Some p\<rparr>))
      | _ \<Rightarrow> None)"

section \<open>Preprocessor\<close>

text \<open>
  \<^verbatim>\<open>re.search\<close> of a pattern without metacharacters: the pattern occurs at some
  position of the text.
\<close>

fun starts_with :: "pystr \<Rightarrow> pystr \<Rightarrow> bool" where
  "starts_with [] s = True"
| "starts_with (c # cs) [] = False"
| "starts_with (c # cs) (d # ds) = (c = d \<and> starts_with cs ds)"

fun search_literal :: "pystr \<Rightarrow> pystr \<Rightarrow> bool" where
  "search_literal tok [] = starts_with tok []"
| "search_literal tok (c # cs) = (starts_with tok (c # cs) \<or> search_literal tok cs)"

text \<open>
  The pattern of the preprocessor is an alternation of three literals:
  U+697C (storey or building), U+5929 U+732B (the e-commerce platform) and
  U+5B66 U+751F U+5361 U+6210 U+672C (student-card fixed cost).
\<close>

definition denylist :: "pystr list" where
  "denylist = [[27004], [22825, 29483], [23398, 29983, 21345, 25104, 26412]]"

text \<open>\<^verbatim>\<open>Series.str.contains(pattern, na=na)\<close> on one cell.\<close>

definition str_contains :: "pystr list \<Rightarrow> bool \<Rightarrow> pystr option \<Rightarrow> bool" where
  "str_contains alternatives na cell =
     (case cell of
        None \<Rightarrow> na
      | Some s \<Rightarrow> list_ex (\<lambda>tok. search_literal tok s) alternatives)"

text \<open>
  The dtype of the location column as the loader reads it: a column that has cells of
  which none holds a text is read as a float64 column, and the \<^verbatim>\<open>.str\<close> accessor of a
  column that is not of texts raises AttributeError. A column without cells, or with at
  least one text, is an object column, on which the accessor works.
\<close>

definition float64_column :: "pystr option list \<Rightarrow> bool" where
  "float64_column cells = (cells \<noteq> [] \<and> list_all (\<lambda>c. c = None) cells)"

definition preprocess_data :: "table \<Rightarrow> exn + table" where
  "preprocess_data df =
     (if \<not> has_location df then Inr df
      else if float64_column (map location (rows df)) then Inl AttributeError
      else Inr (df\<lparr>rows := filter (\<lambda>r. \<not> str_contains denylist False (location r))
                             (rows df)\<rparr>))"

section \<open>Location totals of \<^verbatim>\<open>main\<close>\<close>

text \<open>
  The two spending kinds: U+6301 U+5361 U+4EBA U+6D88 U+8D39 (cardholder spend) and
  U+79BB U+7EBF U+7801 U+5728 U+7EBF U+6D88 U+8D39 (offline-code online spend).
\<close>

definition card_spend :: pystr where
  "card_spend = [25345, 21345, 20154, 28040, 36153]"

definition offline_spend :: pystr where
  "offline_spend = [31163, 32447, 30721, 22312, 32447, 28040, 36153]"

definition spending_events :: "pystr list" where
  "spending_events = [card_spend, offline_spend]"

text \<open>\<^verbatim>\<open>Series.isin(values)\<close> on one cell: a missing cell is in no list.\<close>

definition isin :: "'a option \<Rightarrow> 'a list \<Rightarrow> bool" where
  "isin cell vs = (case cell of None \<Rightarrow> False | Some v \<Rightarrow> v \<in> set vs)"

text \<open>\<^verbatim>\<open>Series.sum()\<close> of the amount column: missing amounts are skipped.\<close>

definition amount_sum :: "row list \<Rightarrow> rat" where
  "amount_sum rs = sum_list (map (\<lambda>r. case amount r of None \<Rightarrow> 0 | Some a \<Rightarrow> a) rs)"

text \<open>
  The group keys of \<^verbatim>\<open>groupby(column)\<close>: the distinct values of the column in
  ascending order; rows whose key is missing belong to no group (\<^verbatim>\<open>dropna=True\<close>, the
  default of pandas).
\<close>

fun non_missing :: "'a option list \<Rightarrow> 'a list" where
  "non_missing [] = []"
| "non_missing (None # cs) = non_missing cs"
| "non_missing (Some v # cs) = v # non_missing cs"

definition group_keys :: "('a::linorder) option list \<Rightarrow> 'a list" where
  "group_keys cells = sort (remdups (non_missing cells))"

definition groupby_location_sum :: "row list \<Rightarrow> (pystr \<times> rat) list" where
  "groupby_location_sum rs =
     map (\<lambda>k. (k, amount_sum (filter (\<lambda>r. location r = Some k) rs)))
       (group_keys (map location rs))"

text \<open>
  \<^verbatim>\<open>Series.sort_values(ascending=False)\<close>. The model sorts stably; pandas' default
  sort leaves the order of equal values open.
\<close>

definition sort_values_desc :: "('k \<times> rat) list \<Rightarrow> ('k \<times> rat) list" where
  "sort_values_desc s = sort_key (\<lambda>kv. - snd kv) s"

text \<open>An exception of the preprocessor ends \<^verbatim>\<open>main\<close>.\<close>

definition main_spending_df :: "table \<Rightarrow> exn + table" where
  "main_spending_df df0 =
     (case preprocess_data df0 of
        Inl e \<Rightarrow> Inl e
      | Inr df \<Rightarrow>
          Inr (df\<lparr>rows := filter (\<lambda>r. isin (event r) spending_events) (rows df)\<rparr>))"

definition main_location_spending :: "table \<Rightarrow> exn + (pystr \<times> rat) list" where
  "main_location_spending df0 =
     (case main_spending_df df0 of
        Inl e \<Rightarrow> Inl e
      | Inr spending_df \<Rightarrow>
          if \<not> has_location spending_df then Inl KeyError
          else Inr (sort_values_desc (groupby_location_sum (rows spending_df))))"

section \<open>Per-meal aggregates\<close>

text \<open>\<^verbatim>\<open>dt.date\<close> of a cell.\<close>

definition date_cell :: "time_cell \<Rightarrow> int option" where
  "date_cell c = map_option date_of (stamp_of c)"

text \<open>
  \<^verbatim>\<open>DataFrame.drop_duplicates(subset=...)\<close>: of the rows with the same values in the
  subset columns the first one stays.
\<close>

fun drop_dup_from :: "('a \<Rightarrow> 'k) \<Rightarrow> 'k list \<Rightarrow> 'a list \<Rightarrow> 'a list" where
  "drop_dup_from key seen [] = []"
| "drop_dup_from key seen (x # xs) =
     (if key x \<in> set seen then drop_dup_from key seen xs
      else x # drop_dup_from key (key x # seen) xs)"

definition drop_duplicates :: "('a \<Rightarrow> 'k) \<Rightarrow> 'a list \<Rightarrow> 'a list" where
  "drop_duplicates key xs = drop_dup_from key [] xs"

text \<open>
  Grouping by the categorical meal column gives one group for each of its four categories,
  in the order of the categories, also for a category without rows (\<^verbatim>\<open>observed=False\<close>,
  the default of pandas 2): its sum and its size are 0. With \<^verbatim>\<open>observed=True\<close> the
  categories without rows are not listed and \<^verbatim>\<open>reindex(labels, fill_value=0)\<close> adds
  them with 0: the reindexed series, which is all the callers use, is the same.
\<close>

definition groupby_meal_sum :: "row list \<Rightarrow> (period \<times> rat) list" where
  "groupby_meal_sum rs =
     map (\<lambda>p. (p, amount_sum (filter (\<lambda>r. meal r = Some p) rs))) labels"

definition groupby_meal_size :: "row list \<Rightarrow> (period \<times> nat) list" where
  "groupby_meal_size rs =
     map (\<lambda>p. (p, length (filter (\<lambda>r. meal r = Some p) rs))) labels"

text \<open>\<^verbatim>\<open>Series.reindex(index, fill_value=fill)\<close>; \<^verbatim>\<open>reindex(None)\<close> changes nothing.\<close>

fun reindex :: "'k list option \<Rightarrow> 'v \<Rightarrow> ('k \<times> 'v) list \<Rightarrow> ('k \<times> 'v) list" where
  "reindex None fill s = s"
| "reindex (Some index) fill s =
     map (\<lambda>k. (k, case map_of s k of None \<Rightarrow> fill | Some v \<Rightarrow> v)) index"

text \<open>
  Floating-point results: a finite value, not-a-number, or an infinity. Dividing by zero
  raises nothing in pandas; it gives an infinity, or not-a-number for 0/0.
\<close>

datatype fnum = Fin rat | NaN | PosInf | NegInf

text \<open>\<^verbatim>\<open>counts.where(counts != 0)\<close>: a zero count becomes missing.\<close>

definition where_nonzero :: "nat \<Rightarrow> rat option" where
  "where_nonzero c = (if c \<noteq> 0 then Some (of_nat c) else None)"

fun divide_cell :: "rat \<Rightarrow> rat option \<Rightarrow> fnum" where
  "divide_cell x None = NaN"
| "divide_cell x (Some d) =
     (if d \<noteq> 0 then Fin (x / d)
      else if x = 0 then NaN else if 0 < x then PosInf else NegInf)"

fun fillna :: "rat \<Rightarrow> fnum \<Rightarrow> fnum" where
  "fillna v NaN = Fin v"
| "fillna v x = x"

text \<open>
  \<^verbatim>\<open>a.divide(b.where(b != 0)).fillna(0)\<close> for two series with the same index.
\<close>

definition divide_where_fillna :: "('k \<times> rat) list \<Rightarrow> ('k \<times> nat) list \<Rightarrow> ('k \<times> fnum) list" where
  "divide_where_fillna a b =
     map (\<lambda>((k, x), (k', c)). (k, fillna 0 (divide_cell x (where_nonzero c)))) (zip a b)"

text \<open>
  The key of \<^verbatim>\<open>drop_duplicates(subset=[date, meal])\<close>, and the per-meal average. A
  caller of the classifier returns when \<^verbatim>\<open>err\<close> is set; were \<^verbatim>\<open>err\<close> and the
  table both \<^verbatim>\<open>None\<close>, which the classifier never returns, the first method call
  on the table would raise.
\<close>

definition date_meal_key :: "row \<Rightarrow> int option \<times> period option" where
  "date_meal_key r = (date_cell (time r), meal r)"

definition create_meal_avg_chart ::
  "(pystr \<Rightarrow> int option) \<Rightarrow> table \<Rightarrow> (period \<times> fnum) list outcome" where
  "create_meal_avg_chart parse spending_df =
     (case prepare_meal_period_data parse spending_df of
        (_, _, Some err) \<Rightarrow> Skipped err
      | (None, _, None) \<Rightarrow> Raised AttributeError
      | (Some df, labels', None) \<Rightarrow>
          let meal_spending = reindex labels' 0 (groupby_meal_sum (rows df));
              meal_counts =
                reindex labels' 0 (groupby_meal_size (drop_duplicates date_meal_key (rows df)))
          in Done (divide_where_fillna meal_spending meal_counts))"

section \<open>Attendance rate\<close>


section \<open>Extremes table\<close>

text \<open>
  One row of \<^verbatim>\<open>meal_summary\<close>: a date, a meal period, the time and location of the
  first transaction, the total amount and the clock time of the first transaction in
  minutes.

  The function leaves two things to the installed pandas, and the model takes both as
  parameters.
  \<^item> \<open>observed\<close>, the default of \<^verbatim>\<open>groupby\<close> for a categorical key. With
    \<^verbatim>\<open>observed=False\<close> (pandas 2) grouping by the date and the meal column gives a row
    for every date of the table and every one of the four categories; for a pair without
    transactions the first time is missing and the total is 0, which is what the test
    \<^verbatim>\<open>pd.isna(row['first_time'])\<close> of \<^verbatim>\<open>format_row\<close> is for. With
    \<^verbatim>\<open>observed=True\<close> (pandas 3) there is a row only for the pairs that occur.
  \<^item> \<open>sort_values\<close>, the sort of the rows by the time column. Its default algorithm
    orders the rows by time and leaves the order of rows with equal times open:
    \<open>sorts_by_time\<close> is all that is known of it.
\<close>

record visit =
  visit_date :: int
  visit_meal :: period
  first_time :: "int option"
  first_location :: pystr
  total_amount :: rat
  clock_minutes :: "rat option"

text \<open>U+672A U+77E5, "unknown": the location shown when no location is recorded.\<close>

definition unknown :: pystr where
  "unknown = [26410, 30693]"

text \<open>\<^verbatim>\<open>GroupBy.first()\<close> takes, column by column, the first value that is not missing.\<close>

fun first_valid :: "'a option list \<Rightarrow> 'a option" where
  "first_valid [] = None"
| "first_valid (None # cs) = first_valid cs"
| "first_valid (Some v # cs) = Some v"

text \<open>
  Sort keys of \<^verbatim>\<open>sort_values\<close>: missing values come last (\<^verbatim>\<open>na_position='last'\<close>),
  whether the column is sorted ascending or descending. Sorting by several columns
  compares the keys of the columns lexicographically and is stable.
\<close>

definition na_last :: "('a::{linorder,zero}) option \<Rightarrow> bool \<times> 'a" where
  "na_last cell = (case cell of None \<Rightarrow> (True, 0) | Some v \<Rightarrow> (False, v))"

definition na_last_desc :: "('a::{linorder,zero,uminus}) option \<Rightarrow> bool \<times> 'a" where
  "na_last_desc cell = (case cell of None \<Rightarrow> (True, 0) | Some v \<Rightarrow> (False, - v))"

definition clock_of :: "int \<Rightarrow> rat" where
  "clock_of t = of_int (hour_of t * 60 + minute_of t) + of_int (second_of t) / 60"

text \<open>
  What is known of \<^verbatim>\<open>df.sort_values(time column)\<close>: the result holds the same rows
  and is ordered by time, rows without a time last.
\<close>

definition sorts_by_time :: "(row list \<Rightarrow> row list) \<Rightarrow> bool" where
  "sorts_by_time sort_values \<longleftrightarrow>
     (\<forall>rs. mset (sort_values rs) = mset rs
           \<and> sorted (map (\<lambda>r. na_last (stamp_of (time r))) (sort_values rs)))"

text \<open>
  \<^verbatim>\<open>first_info\<close>, from grouping the sorted table \<open>df_sorted\<close>, merged with
  \<^verbatim>\<open>total_amount\<close>, from grouping the table \<open>rs\<close> itself: both group the same rows by
  the same two columns, so the merge pairs each row of the first with the total of its own
  group. The groups are listed by date and, within a date, in the order of the categories.
\<close>

definition meal_summary_of :: "bool \<Rightarrow> row list \<Rightarrow> row list \<Rightarrow> visit list" where
  "meal_summary_of observed df_sorted rs =
     concat (map (\<lambda>d. map (\<lambda>p.
          let in_group = (\<lambda>r. date_cell (time r) = Some d \<and> meal r = Some p);
              first_t = first_valid (map (\<lambda>r. stamp_of (time r)) (filter in_group df_sorted));
              first_l = first_valid (map location (filter in_group df_sorted))
          in \<lparr>visit_date = d, visit_meal = p,
              first_time = first_t,
              first_location = (case first_l of None \<Rightarrow> unknown | Some l \<Rightarrow> l),
              total_amount = amount_sum (filter in_group rs),
              clock_minutes = map_option clock_of first_t\<rparr>)
          (filter (\<lambda>p. \<not> observed
                      \<or> list_ex (\<lambda>r. date_cell (time r) = Some d \<and> meal r = Some p) rs)
             labels))
        (group_keys (map (\<lambda>r. date_cell (time r)) rs)))"

text \<open>
  \<^verbatim>\<open>data.sort_values('first_time').iloc[0]\<close>. pandas appends the rows without a first
  time in their order, and two rows of a meal summary that have a first time never have
  the same one, so the order of \<^verbatim>\<open>sort_values\<close> is the stable one here.
\<close>

definition pick_first_row :: "visit list \<Rightarrow> visit option" where
  "pick_first_row data =
     (if data = [] then None
      else Some (sort_key (\<lambda>v. na_last (first_time v)) data ! 0))"

text \<open>
  \<^verbatim>\<open>Series.idxmax()\<close>: the position of the first occurrence of the maximum; on an empty
  series it raises, which is \<open>None\<close> here.
\<close>

fun idxmax_from :: "nat \<Rightarrow> nat \<Rightarrow> rat \<Rightarrow> rat list \<Rightarrow> nat" where
  "idxmax_from i best bv [] = best"
| "idxmax_from i best bv (x # xs) =
     (if bv < x then idxmax_from (Suc i) i x xs else idxmax_from (Suc i) best bv xs)"

fun idxmax :: "rat list \<Rightarrow> nat option" where
  "idxmax [] = None"
| "idxmax (x # xs) = Some (idxmax_from 1 0 x xs)"

definition pick_max_amount :: "visit list \<Rightarrow> visit option" where
  "pick_max_amount data =
     (if data = [] then None
      else map_option (\<lambda>i. data ! i) (idxmax (map total_amount data)))"

definition earliest_breakfast :: "visit list \<Rightarrow> visit option" where
  "earliest_breakfast meal_summary =
     (let breakfast_meals = filter (\<lambda>v. visit_meal v = Breakfast) meal_summary in
      if breakfast_meals \<noteq> [] then
        Some (sort_key (\<lambda>v. (na_last (clock_minutes v), na_last (first_time v)))
                breakfast_meals ! 0)
      else None)"

definition latest_night :: "visit list \<Rightarrow> visit option" where
  "latest_night meal_summary =
     (let night_meals = filter (\<lambda>v. visit_meal v = LateSnack) meal_summary in
      if night_meals \<noteq> [] then
        Some (sort_key (\<lambda>v. (na_last_desc (clock_minutes v), na_last_desc (first_time v)))
                night_meals ! 0)
      else None)"

text \<open>
  A display field: the fixed text U+65E0 U+8BB0 U+5F55 ("no record"), or a location, an
  amount (shown with two decimals) or a time (shown as date and clock time).
\<close>

datatype field = No_record | Place pystr | Money rat | Moment int

definition format_row :: "visit option \<Rightarrow> field list" where
  "format_row row =
     (case row of
        None \<Rightarrow> [No_record, No_record, No_record]
      | Some v \<Rightarrow>
          (case first_time v of
             None \<Rightarrow> [No_record, No_record, No_record]
           | Some t \<Rightarrow> [Place (first_location v), Money (total_amount v), Moment t]))"

datatype item = First_meal | Earliest_breakfast | Latest_night | Most_expensive

definition extremes_rows :: "visit list \<Rightarrow> (item \<times> field list) list" where
  "extremes_rows meal_summary =
     [(First_meal, format_row (pick_first_row meal_summary)),
      (Earliest_breakfast, format_row (earliest_breakfast meal_summary)),
      (Latest_night, format_row (latest_night meal_summary)),
      (Most_expensive, format_row (pick_max_amount meal_summary))]"

definition filter_year :: "int \<Rightarrow> table \<Rightarrow> table" where
  "filter_year year df =
     df\<lparr>rows := filter (\<lambda>r. map_option year_of (stamp_of (time r)) = Some year) (rows df)\<rparr>"

definition create_yearly_extremes_table ::
  "bool \<Rightarrow> (row list \<Rightarrow> row list) \<Rightarrow> (pystr \<Rightarrow> int option) \<Rightarrow> table \<Rightarrow> int
     \<Rightarrow> (item \<times> field list) list outcome" where
  "create_yearly_extremes_table observed sort_values parse spending_df year =
     (let df = filter_year year (dropna_time (coerce_time parse spending_df)) in
      if rows df = [] then Skipped No_year_rows
      else
        case prepare_meal_period_data parse df of
          (_, _, Some err) \<Rightarrow> Skipped err
        | (None, _, None) \<Rightarrow> Raised AttributeError
        | (Some df, _, None) \<Rightarrow>
            if \<not> has_location df then Raised KeyError
            else Done (extremes_rows
                   (meal_summary_of observed (sort_values (rows df)) (rows df))))"

section \<open>File resolver\<close>

text \<open>
  The part of the file system the resolver looks at: a path names a file, a directory, or
  nothing. A directory lists its entries in the order \<^verbatim>\<open>glob\<close> yields them, each with
  its modification time. Paths are taken after \<^verbatim>\<open>expanduser\<close>; file names are matched
  with case, as on POSIX systems.
\<close>

datatype node = File | Dir "(string \<times> int) list"

type_synonym filesystem = "string \<Rightarrow> node option"

definition is_dir :: "filesystem \<Rightarrow> string \<Rightarrow> bool" where
  "is_dir fs p = (case fs p of Some (Dir entries) \<Rightarrow> True | _ \<Rightarrow> False)"

definition exists :: "filesystem \<Rightarrow> string \<Rightarrow> bool" where
  "exists fs p = (fs p \<noteq> None)"

definition ends_with :: "string \<Rightarrow> string \<Rightarrow> bool" where
  "ends_with suffix name =
     (length suffix \<le> length name \<and> drop (length name - length suffix) name = suffix)"

text \<open>
  \<^verbatim>\<open>search_dir.glob('*' + suffix)\<close>: the paths of the entries whose name ends with the
  suffix, each with its modification time.
\<close>

definition glob :: "filesystem \<Rightarrow> string \<Rightarrow> string \<Rightarrow> (string \<times> int) list" where
  "glob fs search_dir suffix =
     (case fs search_dir of
        Some (Dir entries) \<Rightarrow>
          map (\<lambda>(name, mtime). (search_dir @ ''/'' @ name, mtime))
            (filter (\<lambda>(name, mtime). ends_with suffix name) entries)
      | _ \<Rightarrow> [])"

text \<open>
  \<^verbatim>\<open>sorted(candidates, key=mtime, reverse=True)\<close>: Python sorts stably, and with
  \<^verbatim>\<open>reverse=True\<close> equal keys keep their order.
\<close>

definition sorted_newest_first :: "(string \<times> int) list \<Rightarrow> (string \<times> int) list" where
  "sorted_newest_first candidates = rev (sort_key snd (rev candidates))"

datatype notice = Newest_csv_chosen | Newest_excel_chosen

definition search_data_file :: "filesystem \<Rightarrow> string \<Rightarrow> notice list \<times> (exn + string)" where
  "search_data_file fs search_dir =
     (let csv_candidates = sorted_newest_first (glob fs search_dir ''.csv'');
          xlsx_candidates = sorted_newest_first (glob fs search_dir ''.xlsx'');
          xls_candidates = sorted_newest_first (glob fs search_dir ''.xls'')
      in
        if csv_candidates = [] \<and> xlsx_candidates = [] \<and> xls_candidates = []
        then ([], Inl FileNotFoundError)
        else if csv_candidates \<noteq> [] then
          ((if 1 < length csv_candidates \<or> xlsx_candidates \<noteq> [] \<or> xls_candidates \<noteq> []
            then [Newest_csv_chosen] else []),
           Inr (fst (csv_candidates ! 0)))
        else
          let excel_candidates = xlsx_candidates @ xls_candidates in
          ((if 1 < length excel_candidates then [Newest_excel_chosen] else []),
           Inr (fst (excel_candidates ! 0))))"

text \<open>
  The result is what was printed and what was returned or raised. \<^verbatim>\<open>if file_path:\<close>
  is false for \<^verbatim>\<open>None\<close> and for the empty string.
\<close>

definition find_data_file ::
  "filesystem \<Rightarrow> string option \<Rightarrow> string \<Rightarrow> notice list \<times> (exn + string)" where
  "find_data_file fs file_path search_dir =
     (case file_path of
        None \<Rightarrow> search_data_file fs search_dir
      | Some path \<Rightarrow>
          if path = [] then search_data_file fs search_dir
          else if is_dir fs path then search_data_file fs path
          else if exists fs path then ([], Inr path)
          else search_data_file fs search_dir)"

section \<open>Quantities named by the specification\<close>

text \<open>
  The number of distinct (date, period) visits of a period, which is also the number of
  distinct visit-days that have the period: the number of dates on which some row of the
  table carries the period.
\<close>

definition visit_days :: "row list \<Rightarrow> period \<Rightarrow> nat" where
  "visit_days rs p = card {d. \<exists>r\<in>set rs. meal r = Some p \<and> date_cell (time r) = Some d}"



text \<open>The classified rows of the target year, from which the extremes table is built.\<close>

definition year_rows :: "(pystr \<Rightarrow> int option) \<Rightarrow> table \<Rightarrow> int \<Rightarrow> row list" where
  "year_rows parse df year =
     returned_rows (prepare_meal_period_data parse
       (filter_year year (dropna_time (coerce_time parse df))))"

section \<open>Example data\<close>

text \<open>A spending transaction with every cell present, and a parser that parses no text.\<close>

definition txn :: "int \<Rightarrow> pystr \<Rightarrow> rat \<Rightarrow> row" where
  "txn t place paid =
     \<lparr>time = Stamp t, event = Some card_spend, location = Some place,
      amount = Some paid, meal = None\<rparr>"

definition no_parse :: "pystr \<Rightarrow> int option" where
  "no_parse s = None"

text \<open>
  A table with a transaction at each of 06:29, 06:30, 22:29 and 22:30 of 2025-03-01
  (day 20148), at the place "A".
\<close>

definition boundary_table :: table where
  "boundary_table =
     \<lparr>has_location = True,
      rows = [txn (mk_ts 20148 6 29 0) [65] 3, txn (mk_ts 20148 6 30 0) [65] 8,
              txn (mk_ts 20148 22 29 0) [65] 5, txn (mk_ts 20148 22 30 0) [65] 7]\<rparr>"

text \<open>
  A parser that knows one text, "7:00" (of 2025-03-01), and a table with that text, a text
  that does not parse and a Timestamp at 23:00.
\<close>

definition demo_parse :: "pystr \<Rightarrow> int option" where
  "demo_parse s = (if s = [55, 58, 48, 48] then Some (mk_ts 20148 7 0 0) else None)"

definition text_table :: table where
  "text_table =
     \<lparr>has_location = True,
      rows = [(txn 0 [65] 4)\<lparr>time := Text [55, 58, 48, 48]\<rparr>,
              (txn 0 [65] 6)\<lparr>time := Text [63]\<rparr>,
              txn (mk_ts 20148 23 0 0) [66] 9]\<rparr>"

text \<open>
  A table with a purchase at the e-commerce platform (its location is U+5929 U+732B
  followed by another character), a transaction without a location and one at "A".
\<close>

definition shop_table :: table where
  "shop_table =
     \<lparr>has_location = True,
      rows = [txn (mk_ts 20148 12 0 0) [22825, 29483, 36229] 20,
              (txn (mk_ts 20148 12 5 0) [] 3)\<lparr>location := None\<rparr>,
              txn (mk_ts 20148 18 0 0) [65] 10]\<rparr>"


text \<open>
  A file system with one directory \<^verbatim>\<open>data\<close>, which holds a CSV file and a text file,
  and a directory \<^verbatim>\<open>sheets\<close> with an older \<^verbatim>\<open>.xlsx\<close> and a newer \<^verbatim>\<open>.xls\<close> file.
\<close>

definition demo_fs :: filesystem where
  "demo_fs p =
     (if p = ''data'' then Some (Dir [(''notes.txt'', 9), (''card.csv'', 4)])
      else if p = ''sheets'' then Some (Dir [(''old.xlsx'', 1), (''new.xls'', 2)])
      else if p = ''data/card.csv'' \<or> p = ''data/notes.txt''
              \<or> p = ''sheets/old.xlsx'' \<or> p = ''sheets/new.xls'' then Some File
      else None)"

text \<open>
  Two transactions at the same place in the breakfast window of 2025-03-01, and a table
  whose only transaction is a lunch on that day.
\<close>

definition breakfast_table :: table where
  "breakfast_table =
     \<lparr>has_location = True,
      rows = [txn (mk_ts 20148 7 0 0) [65] 10, txn (mk_ts 20148 7 10 0) [65] 5]\<rparr>"


text \<open>
  A table of 2025-03-01 with a transaction at 23:00 at "A" and one at 20:00 at "B", and a
  table of that day with two refunds: a lunch of -5 at "A" and a dinner of -2 at "B".
\<close>

definition night_table :: table where
  "night_table =
     \<lparr>has_location = True,
      rows = [txn (mk_ts 20148 23 0 0) [65] 9, txn (mk_ts 20148 20 0 0) [66] 6]\<rparr>"

definition refund_table :: table where
  "refund_table =
     \<lparr>has_location = True,
      rows = [txn (mk_ts 20148 12 0 0) [65] (- 5), txn (mk_ts 20148 18 0 0) [66] (- 2)]\<rparr>"

text \<open>A table of that day with one lunch at "A" for which nothing was paid.\<close>

definition free_lunch_table :: table where
  "free_lunch_table =
     \<lparr>has_location = True, rows = [txn (mk_ts 20148 12 0 0) [65] 0]\<rparr>"

text \<open>A sort of the rows by time that keeps rows with equal times in their order.\<close>

definition stable_sort_values :: "row list \<Rightarrow> row list" where
  "stable_sort_values rs = sort_key (\<lambda>r. na_last (stamp_of (time r))) rs"

section \<open>Properties of the classifier\<close>

lemma cut_bins_labels:
  "cut bins labels m =
     (if 390 \<le> m \<and> m < 600 then Some Breakfast
      else if 600 \<le> m \<and> m < 900 then Some Lunch
      else if 900 \<le> m \<and> m < 1170 then Some Dinner
      else if 1170 \<le> m \<and> m < 1350 then Some LateSnack
      else None)"
  by (simp add: bins_def labels_def)

lemma classified_rows_eq:
  "rows (dropna_meal (assign_meal (dropna_time (coerce_time parse df)))) =
     List.map_filter (classify_row parse) (rows df)"
proof -
  have "filter (\<lambda>r. meal r \<noteq> None)
          (map (\<lambda>r. r\<lparr>meal := cut_cell (time r)\<rparr>)
             (filter (\<lambda>r. is_stamp (time r))
                (map (\<lambda>r. r\<lparr>time := to_datetime parse (time r)\<rparr>) xs))) =
        List.map_filter (classify_row parse) xs" for xs
  proof (induction xs)
    case Nil
    show ?case by (simp add: List.map_filter_simps)
  next
    case (Cons x xs)
    show ?case
    proof (cases "to_datetime parse (time x)")
      case (Stamp t)
      then show ?thesis
        using Cons
        by (cases "cut bins labels (clock_minute t)")
          (simp_all add: List.map_filter_simps classify_row_def cut_cell_def minutes_cell_def)
    qed (use Cons in \<open>simp_all add: List.map_filter_simps classify_row_def\<close>)
  qed
  then show ?thesis
    by (simp add: dropna_meal_def assign_meal_def dropna_time_def coerce_time_def)
qed

lemma returned_rows_prepare:
  "returned_rows (prepare_meal_period_data parse df) =
     List.map_filter (classify_row parse) (rows df)"
proof -
  let ?d1 = "dropna_time (coerce_time parse df)"
  let ?d2 = "dropna_meal (assign_meal ?d1)"
  have d2: "rows ?d2 = List.map_filter (classify_row parse) (rows df)"
    by (rule classified_rows_eq)
  show ?thesis
  proof (cases "rows ?d1 = []")
    case True
    then have "rows ?d2 = []"
      by (simp add: dropna_meal_def assign_meal_def)
    with True d2 show ?thesis
      by (simp add: prepare_meal_period_data_def returned_rows_def)
  next
    case False
    then show ?thesis
      using d2 by (simp add: prepare_meal_period_data_def returned_rows_def Let_def)
  qed
qed

lemma clock_minute_mk_ts:
  assumes "0 \<le> h" "h < 24" "0 \<le> m" "m < 60" "0 \<le> s" "s < 60"
  shows "clock_minute (mk_ts d h m s) = h * 60 + m"
proof -
  let ?x = "h * 3600 + m * 60 + s"
  have x: "0 \<le> ?x" "?x < 86400" using assms by auto
  have "mk_ts d h m s = ?x + d * 86400" by (simp add: mk_ts_def)
  then have m1: "mk_ts d h m s mod 86400 = ?x"
    using x by simp
  have hr: "?x div 3600 = h" using assms by auto
  have "mk_ts d h m s = (m * 60 + s) + (d * 24 + h) * 3600" by (simp add: mk_ts_def)
  then have "mk_ts d h m s mod 3600 = (m * 60 + s) mod 3600"
    by (simp only: mod_mult_self1)
  then have "mk_ts d h m s mod 3600 = (m * 60 + s)"
    using assms by simp
  moreover have "(m * 60 + s) div 60 = m" using assms by auto
  ultimately show ?thesis
    using m1 hr by (simp add: clock_minute_def hour_of_def minute_of_def)
qed

lemma set_map_filter_conv:
  "set (List.map_filter f xs) = {y. \<exists>x\<in>set xs. f x = Some y}"
  by (induction xs) (auto simp: List.map_filter_simps split: option.splits)

text \<open>
  Claim C1. A row whose time parses is kept by the classifier, with a period, exactly when
  its minute of the day (hour times 60 plus minute) lies in exactly one of the intervals
  [390,600), [600,900), [900,1170), [1170,1350); every kept row carries the period of the
  interval that holds its minute of the day (breakfast, lunch, dinner, late snack, in this
  order); a row at 06:30 is kept as breakfast and one at 22:29 as late snack, and no kept
  row is at 06:29 or at 22:30, whatever the day and the seconds.
\<close>

theorem meal_period_half_open_intervals:
  "(\<forall>r\<in>set (rows df). \<forall>t. to_datetime parse (time r) = Stamp t \<longrightarrow>
      ((\<exists>p. r\<lparr>time := Stamp t, meal := Some p\<rparr>
              \<in> set (returned_rows (prepare_meal_period_data parse df)))
       \<longleftrightarrow> length (filter (\<lambda>(lo, hi). lo \<le> clock_minute t \<and> clock_minute t < hi)
                    [(390, 600), (600, 900), (900, 1170), (1170, 1350)]) = 1))
   \<and> (\<forall>k\<in>set (returned_rows (prepare_meal_period_data parse df)). \<exists>t. time k = Stamp t \<and>
        (meal k = Some Breakfast \<and> 390 \<le> clock_minute t \<and> clock_minute t < 600
         \<or> meal k = Some Lunch \<and> 600 \<le> clock_minute t \<and> clock_minute t < 900
         \<or> meal k = Some Dinner \<and> 900 \<le> clock_minute t \<and> clock_minute t < 1170
         \<or> meal k = Some LateSnack \<and> 1170 \<le> clock_minute t \<and> clock_minute t < 1350))
   \<and> (\<forall>r\<in>set (rows df). \<forall>d s. 0 \<le> s \<and> s < 60 \<longrightarrow>
        (time r = Stamp (mk_ts d 6 30 s) \<longrightarrow>
           r\<lparr>meal := Some Breakfast\<rparr> \<in> set (returned_rows (prepare_meal_period_data parse df)))
        \<and> (time r = Stamp (mk_ts d 22 29 s) \<longrightarrow>
           r\<lparr>meal := Some LateSnack\<rparr> \<in> set (returned_rows (prepare_meal_period_data parse df))))
   \<and> (\<forall>k\<in>set (returned_rows (prepare_meal_period_data parse df)). \<forall>d s. 0 \<le> s \<and> s < 60 \<longrightarrow>
        time k \<noteq> Stamp (mk_ts d 6 29 s) \<and> time k \<noteq> Stamp (mk_ts d 22 30 s))"
  (is "?A \<and> ?B \<and> ?C \<and> ?D")
proof -
  let ?kept = "set (returned_rows (prepare_meal_period_data parse df))"
  have kept: "?kept = {k. \<exists>r\<in>set (rows df). classify_row parse r = Some k}"
    by (simp add: returned_rows_prepare set_map_filter_conv)
  have B: ?B
  proof
    fix k assume "k \<in> ?kept"
    then obtain r where "classify_row parse r = Some k" using kept by auto
    then show "\<exists>t. time k = Stamp t \<and>
        (meal k = Some Breakfast \<and> 390 \<le> clock_minute t \<and> clock_minute t < 600
         \<or> meal k = Some Lunch \<and> 600 \<le> clock_minute t \<and> clock_minute t < 900
         \<or> meal k = Some Dinner \<and> 900 \<le> clock_minute t \<and> clock_minute t < 1170
         \<or> meal k = Some LateSnack \<and> 1170 \<le> clock_minute t \<and> clock_minute t < 1350)"
      by (auto simp: classify_row_def cut_bins_labels split: time_cell.splits option.splits if_splits)
  qed
  have A: ?A
  proof (intro ballI allI impI)
    fix r t assume r: "r \<in> set (rows df)" and t: "to_datetime parse (time r) = Stamp t"
    let ?n = "length (filter (\<lambda>(lo, hi). lo \<le> clock_minute t \<and> clock_minute t < hi)
                    [(390, 600), (600, 900), (900, 1170), (1170, 1350)])"
    have n: "(?n = 1) = (390 \<le> clock_minute t \<and> clock_minute t < 1350)"
      by auto
    have cr: "classify_row parse r =
        (case cut bins labels (clock_minute t) of None \<Rightarrow> None
         | Some p \<Rightarrow> Some (r\<lparr>time := Stamp t, meal := Some p\<rparr>))"
      using t by (simp add: classify_row_def)
    show "(\<exists>p. r\<lparr>time := Stamp t, meal := Some p\<rparr> \<in> ?kept) \<longleftrightarrow> ?n = 1"
    proof
      assume "\<exists>p. r\<lparr>time := Stamp t, meal := Some p\<rparr> \<in> ?kept"
      then obtain p where "r\<lparr>time := Stamp t, meal := Some p\<rparr> \<in> ?kept" ..
      with B obtain t' where "time (r\<lparr>time := Stamp t, meal := Some p\<rparr>) = Stamp t'"
        and "390 \<le> clock_minute t' \<and> clock_minute t' < 1350"
        by fastforce
      then show "?n = 1" using n by simp
    next
      assume "?n = 1"
      then have "390 \<le> clock_minute t \<and> clock_minute t < 1350" using n by simp
      then have "cut bins labels (clock_minute t) \<noteq> None"
        by (simp add: cut_bins_labels)
      then obtain p where "cut bins labels (clock_minute t) = Some p"
        by blast
      then have "classify_row parse r = Some (r\<lparr>time := Stamp t, meal := Some p\<rparr>)"
        using cr by simp
      then show "\<exists>p. r\<lparr>time := Stamp t, meal := Some p\<rparr> \<in> ?kept"
        using r kept by blast
    qed
  qed
  have C: ?C
  proof (intro ballI allI impI conjI)
    fix r d s assume r: "r \<in> set (rows df)" and s: "0 \<le> s \<and> s < (60::int)"
    { assume t: "time r = Stamp (mk_ts d 6 30 s)"
      have "clock_minute (mk_ts d 6 30 s) = 390"
        using clock_minute_mk_ts [of 6 30 s d] s by simp
      then have "classify_row parse r = Some (r\<lparr>meal := Some Breakfast\<rparr>)"
        using t by (simp add: classify_row_def cut_bins_labels)
      then show "r\<lparr>meal := Some Breakfast\<rparr> \<in> ?kept" using r kept by blast }
    { assume t: "time r = Stamp (mk_ts d 22 29 s)"
      have "clock_minute (mk_ts d 22 29 s) = 1349"
        using clock_minute_mk_ts [of 22 29 s d] s by simp
      then have "classify_row parse r = Some (r\<lparr>meal := Some LateSnack\<rparr>)"
        using t by (simp add: classify_row_def cut_bins_labels)
      then show "r\<lparr>meal := Some LateSnack\<rparr> \<in> ?kept" using r kept by blast }
  qed
  have D: ?D
  proof (intro ballI allI impI)
    fix k d s assume k: "k \<in> ?kept" and s: "0 \<le> s \<and> s < (60::int)"
    from B k obtain t where t: "time k = Stamp t" "390 \<le> clock_minute t" "clock_minute t < 1350"
      by fastforce
    have "clock_minute (mk_ts d 6 29 s) = 389" "clock_minute (mk_ts d 22 30 s) = 1350"
      using clock_minute_mk_ts [of 6 29 s d] clock_minute_mk_ts [of 22 30 s d] s by simp_all
    with t show "time k \<noteq> Stamp (mk_ts d 6 29 s) \<and> time k \<noteq> Stamp (mk_ts d 22 30 s)"
      by auto
  qed
  from A B C D show ?thesis by blast
qed

theorem meal_period_half_open_intervals_witness:
  "txn (mk_ts 20148 6 30 0) [65] 8 \<in> set (rows boundary_table)
   \<and> to_datetime no_parse (time (txn (mk_ts 20148 6 30 0) [65] 8)) = Stamp (mk_ts 20148 6 30 0)
   \<and> (txn (mk_ts 20148 6 30 0) [65] 8)\<lparr>meal := Some Breakfast\<rparr>
        \<in> set (returned_rows (prepare_meal_period_data no_parse boundary_table))
   \<and> length (filter (\<lambda>(lo, hi). lo \<le> clock_minute (mk_ts 20148 6 30 0)
                                  \<and> clock_minute (mk_ts 20148 6 30 0) < hi)
         [(390, 600), (600, 900), (900, 1170), (1170, 1350)]) = 1
   \<and> time ((txn (mk_ts 20148 6 30 0) [65] 8)\<lparr>meal := Some Breakfast\<rparr>)
        \<noteq> Stamp (mk_ts 20148 22 30 0)
   \<and> returned_rows (prepare_meal_period_data no_parse boundary_table) =
        [(txn (mk_ts 20148 6 30 0) [65] 8)\<lparr>meal := Some Breakfast\<rparr>,
         (txn (mk_ts 20148 22 29 0) [65] 5)\<lparr>meal := Some LateSnack\<rparr>]"
proof -
  let ?r = "txn (mk_ts 20148 6 30 0) [65] 8"
  let ?t = "mk_ts 20148 6 30 0"
  let ?kept = "set (returned_rows (prepare_meal_period_data no_parse boundary_table))"
  note inst = meal_period_half_open_intervals [of boundary_table no_parse]
  have r: "?r \<in> set (rows boundary_table)"
    by (simp add: boundary_table_def)
  have t: "time ?r = Stamp ?t"
    by (simp add: txn_def)
  have p: "to_datetime no_parse (time ?r) = Stamp ?t"
    by (simp add: txn_def)
  have "\<forall>r\<in>set (rows boundary_table). \<forall>d s. 0 \<le> s \<and> s < 60 \<longrightarrow>
        (time r = Stamp (mk_ts d 6 30 s) \<longrightarrow> r\<lparr>meal := Some Breakfast\<rparr> \<in> ?kept)
        \<and> (time r = Stamp (mk_ts d 22 29 s) \<longrightarrow> r\<lparr>meal := Some LateSnack\<rparr> \<in> ?kept)"
    using inst by (elim conjE)
  with r t have k: "?r\<lparr>meal := Some Breakfast\<rparr> \<in> ?kept"
    by fastforce
  have "?r\<lparr>time := Stamp ?t, meal := Some Breakfast\<rparr> = ?r\<lparr>meal := Some Breakfast\<rparr>"
    by (simp add: txn_def)
  with k have ex: "\<exists>p. ?r\<lparr>time := Stamp ?t, meal := Some p\<rparr> \<in> ?kept"
    by metis
  have "\<forall>r\<in>set (rows boundary_table). \<forall>t. to_datetime no_parse (time r) = Stamp t \<longrightarrow>
      ((\<exists>p. r\<lparr>time := Stamp t, meal := Some p\<rparr> \<in> ?kept)
       \<longleftrightarrow> length (filter (\<lambda>(lo, hi). lo \<le> clock_minute t \<and> clock_minute t < hi)
                    [(390, 600), (600, 900), (900, 1170), (1170, 1350)]) = 1)"
    using inst by (elim conjE)
  with r p ex have one: "length (filter (\<lambda>(lo, hi). lo \<le> clock_minute ?t \<and> clock_minute ?t < hi)
         [(390, 600), (600, 900), (900, 1170), (1170, 1350)]) = 1"
    by blast
  have "\<forall>k\<in>?kept. \<forall>d s. 0 \<le> s \<and> s < 60 \<longrightarrow>
        time k \<noteq> Stamp (mk_ts d 6 29 s) \<and> time k \<noteq> Stamp (mk_ts d 22 30 s)"
    using inst by (elim conjE)
  with k have n: "time (?r\<lparr>meal := Some Breakfast\<rparr>) \<noteq> Stamp (mk_ts 20148 22 30 0)"
    by fastforce
  have e: "returned_rows (prepare_meal_period_data no_parse boundary_table) =
        [(txn (mk_ts 20148 6 30 0) [65] 8)\<lparr>meal := Some Breakfast\<rparr>,
         (txn (mk_ts 20148 22 29 0) [65] 5)\<lparr>meal := Some LateSnack\<rparr>]"
    by (simp add: returned_rows_prepare boundary_table_def List.map_filter_simps
        classify_row_def txn_def mk_ts_def cut_bins_labels clock_minute_def hour_of_def minute_of_def)
  from r p k one n e show ?thesis by (intro conjI)
qed

lemma classified_table:
  "dropna_meal (assign_meal (dropna_time (coerce_time parse df))) =
     df\<lparr>rows := List.map_filter (classify_row parse) (rows df)\<rparr>"
proof -
  have "dropna_meal (assign_meal (dropna_time (coerce_time parse df))) =
        df\<lparr>rows := rows (dropna_meal (assign_meal (dropna_time (coerce_time parse df))))\<rparr>"
    by (simp add: dropna_meal_def assign_meal_def dropna_time_def coerce_time_def)
  then show ?thesis
    by (simp only: classified_rows_eq)
qed

lemma no_stamp_no_classified:
  "rows (dropna_time (coerce_time parse df)) = [] \<Longrightarrow>
     List.map_filter (classify_row parse) (rows df) = []"
proof -
  assume "rows (dropna_time (coerce_time parse df)) = []"
  then have "rows (dropna_meal (assign_meal (dropna_time (coerce_time parse df)))) = []"
    by (simp add: dropna_meal_def assign_meal_def)
  then show ?thesis by (simp only: classified_rows_eq)
qed

lemma prepare_eq:
  "prepare_meal_period_data parse df =
     (if rows (dropna_time (coerce_time parse df)) = [] then (None, None, Some No_time_data)
      else if List.map_filter (classify_row parse) (rows df) = []
      then (None, Some labels, Some No_rows_in_window)
      else (Some (df\<lparr>rows := List.map_filter (classify_row parse) (rows df)\<rparr>),
            Some labels, None))"
  by (simp add: prepare_meal_period_data_def Let_def classified_table)

lemma classify_row_fixed:
  assumes "classify_row parse r = Some k"
  shows "classify_row parse' k = Some k"
proof -
  from assms obtain t p where t: "to_datetime parse (time r) = Stamp t"
    and p: "cut bins labels (clock_minute t) = Some p"
    and k: "k = r\<lparr>time := Stamp t, meal := Some p\<rparr>"
    by (auto simp: classify_row_def split: time_cell.splits option.splits)
  then show ?thesis
    by (simp add: classify_row_def)
qed

lemma map_filter_fixed:
  "(\<And>x. x \<in> set xs \<Longrightarrow> f x = Some x) \<Longrightarrow> List.map_filter f xs = xs"
  by (induction xs) (simp_all add: List.map_filter_simps)

lemma reclassify_rows:
  "List.map_filter (classify_row parse')
     (List.map_filter (classify_row parse) xs) = List.map_filter (classify_row parse) xs"
  by (rule map_filter_fixed) (auto simp: set_map_filter_conv intro: classify_row_fixed)

text \<open>
  Claim C6. The classifier is idempotent: when it returns a table, applying it to that
  table returns the same table, the same labels and no skip reason, so the same rows with
  the same periods. The second run may even use another parser: every time cell of the
  returned table is a Timestamp already.
\<close>

theorem classifier_idempotent:
  assumes "prepare_meal_period_data parse df = (Some out, labs, err)"
  shows "prepare_meal_period_data parse' out = (Some out, labs, err)
         \<and> returned_rows (prepare_meal_period_data parse' out) =
             returned_rows (prepare_meal_period_data parse df)"
proof -
  let ?ks = "List.map_filter (classify_row parse) (rows df)"
  from assms have ks: "?ks \<noteq> []" and out: "out = df\<lparr>rows := ?ks\<rparr>"
    and rest: "labs = Some labels" "err = None"
    by (auto simp: prepare_eq split: if_splits)
  have again: "List.map_filter (classify_row parse') (rows out) = rows out"
    using out by (simp add: reclassify_rows)
  then have "rows (dropna_time (coerce_time parse' out)) \<noteq> []"
    using ks out no_stamp_no_classified [of parse' out] by auto
  then have "prepare_meal_period_data parse' out = (Some out, labs, err)"
    using again ks out rest by (simp add: prepare_eq)
  then show ?thesis
    using assms by simp
qed

section \<open>Properties of the preprocessor\<close>












section \<open>Properties of the file resolver\<close>

text \<open>
  Claim C9. A path that is given but names neither a file nor a directory is passed over
  without an error or a message of its own: the resolver searches the default directory,
  exactly as if no path had been given.
\<close>

theorem bad_path_falls_back:
  assumes "path \<noteq> []" and "fs path = None"
  shows "find_data_file fs (Some path) search_dir = search_data_file fs search_dir
         \<and> find_data_file fs (Some path) search_dir = find_data_file fs None search_dir"
  using assms by (simp add: find_data_file_def is_dir_def exists_def)

section \<open>Worked examples for the classifier, the preprocessor and the resolver\<close>

lemmas eval_classify =
  prepare_eq List.map_filter_simps classify_row_def txn_def mk_ts_def cut_bins_labels
  clock_minute_def hour_of_def minute_of_def dropna_time_def coerce_time_def

theorem classifier_idempotent_witness:
  "prepare_meal_period_data demo_parse text_table =
     (Some \<lparr>has_location = True,
            rows = [(txn (mk_ts 20148 7 0 0) [65] 4)\<lparr>meal := Some Breakfast\<rparr>]\<rparr>,
      Some labels, None)
   \<and> prepare_meal_period_data demo_parse
       \<lparr>has_location = True,
        rows = [(txn (mk_ts 20148 7 0 0) [65] 4)\<lparr>meal := Some Breakfast\<rparr>]\<rparr> =
     (Some \<lparr>has_location = True,
            rows = [(txn (mk_ts 20148 7 0 0) [65] 4)\<lparr>meal := Some Breakfast\<rparr>]\<rparr>,
      Some labels, None)"
proof -
  have first: "prepare_meal_period_data demo_parse text_table =
     (Some \<lparr>has_location = True,
            rows = [(txn (mk_ts 20148 7 0 0) [65] 4)\<lparr>meal := Some Breakfast\<rparr>]\<rparr>,
      Some labels, None)"
    by (simp add: eval_classify text_table_def demo_parse_def)
  from classifier_idempotent [OF first, of demo_parse] first show ?thesis
    by simp
qed




theorem bad_path_falls_back_witness:
  "''data/crad.csv'' \<noteq> [] \<and> demo_fs ''data/crad.csv'' = None
   \<and> find_data_file demo_fs (Some ''data/crad.csv'') ''data'' = search_data_file demo_fs ''data''
   \<and> find_data_file demo_fs (Some ''data/crad.csv'') ''data'' = ([], Inr ''data/card.csv'')"
proof -
  have a: "''data/crad.csv'' \<noteq> []" by simp
  have b: "demo_fs ''data/crad.csv'' = None" by (simp add: demo_fs_def)
  have c: "search_data_file demo_fs ''data'' = ([], Inr ''data/card.csv'')"
    by (simp add: search_data_file_def glob_def demo_fs_def ends_with_def sorted_newest_first_def)
  from bad_path_falls_back [of "''data/crad.csv''" demo_fs "''data''"] a b c show ?thesis
    by simp
qed

section \<open>Properties of the location totals\<close>

lemma sum_list_insort_key:
  fixes g :: "'a \<Rightarrow> rat"
  shows "sum_list (map g (insort_key f x xs)) = g x + sum_list (map g xs)"
  by (induction xs) simp_all

lemma sum_list_sort_key:
  fixes g :: "'a \<Rightarrow> rat"
  shows "sum_list (map g (sort_key f xs)) = sum_list (map g xs)"
  by (induction xs) (simp_all add: sum_list_insort_key)

lemma set_non_missing: "set (non_missing cs) = {v. Some v \<in> set cs}"
  by (induction cs rule: non_missing.induct) auto

lemma group_keys_props:
  "distinct (group_keys cs)" "set (group_keys cs) = {v. Some v \<in> set cs}"
  by (simp_all add: group_keys_def set_non_missing)

lemma amount_sum_Cons:
  "amount_sum (r # rs) = (case amount r of None \<Rightarrow> 0 | Some a \<Rightarrow> a) + amount_sum rs"
  by (simp add: amount_sum_def)

lemma amount_sum_Nil: "amount_sum [] = 0"
  by (simp add: amount_sum_def)

lemma sum_groups_located:
  assumes "finite K" and "\<forall>r\<in>set rs. \<forall>k. location r = Some k \<longrightarrow> k \<in> K"
  shows "(\<Sum>k\<in>K. amount_sum (filter (\<lambda>r. location r = Some k) rs)) =
         amount_sum (filter (\<lambda>r. location r \<noteq> None) rs)"
  using assms(2)
proof (induction rs)
  case Nil
  show ?case by (simp add: amount_sum_Nil)
next
  case (Cons r rs)
  then have IH: "(\<Sum>k\<in>K. amount_sum (filter (\<lambda>r. location r = Some k) rs)) =
         amount_sum (filter (\<lambda>r. location r \<noteq> None) rs)"
    by simp
  show ?case
  proof (cases "location r")
    case None
    then show ?thesis using IH by simp
  next
    case (Some k0)
    let ?a = "case amount r of None \<Rightarrow> 0 | Some a \<Rightarrow> a"
    have k0: "k0 \<in> K" using Cons.prems Some by simp
    have "(\<Sum>k\<in>K. amount_sum (filter (\<lambda>r. location r = Some k) (r # rs))) =
          (\<Sum>k\<in>K. (if k = k0 then ?a else 0) + amount_sum (filter (\<lambda>r. location r = Some k) rs))"
      using Some by (intro sum.cong) (auto simp: amount_sum_Cons)
    also have "\<dots> = (\<Sum>k\<in>K. if k = k0 then ?a else 0)
          + (\<Sum>k\<in>K. amount_sum (filter (\<lambda>r. location r = Some k) rs))"
      by (rule sum.distrib)
    also have "(\<Sum>k\<in>K. if k = k0 then ?a else 0) = ?a"
      using assms(1) k0 by simp
    finally show ?thesis
      using IH Some by (simp add: amount_sum_Cons)
  qed
qed

lemma groupby_location_sum_total:
  "sum_list (map snd (groupby_location_sum rs)) =
     amount_sum (filter (\<lambda>r. location r \<noteq> None) rs)"
proof -
  let ?ks = "group_keys (map location rs)"
  let ?g = "\<lambda>k. amount_sum (filter (\<lambda>r. location r = Some k) rs)"
  have "sum_list (map snd (groupby_location_sum rs)) = sum_list (map ?g ?ks)"
    by (simp add: groupby_location_sum_def comp_def)
  also have "\<dots> = sum ?g (set ?ks)"
    using group_keys_props(1) by (rule sum_list_distinct_conv_sum_set)
  also have "\<dots> = amount_sum (filter (\<lambda>r. location r \<noteq> None) rs)"
  proof (rule sum_groups_located)
    show "finite (set ?ks)" by simp
    show "\<forall>r\<in>set rs. \<forall>k. location r = Some k \<longrightarrow> k \<in> set ?ks"
      by (force simp: group_keys_props(2))
  qed
  finally show ?thesis .
qed

text \<open>
  Claim C3, as amended. For a table with a location column from which \<^verbatim>\<open>main\<close> gets its
  filtered table of spending rows, the per-location totals add up to the sum of the
  amounts of the spending rows that have a location. A spending row whose location is
  missing passes the preprocessor but belongs to no group, so its amount is in no total.
\<close>

theorem location_totals_conserve_located_spending:
  assumes "has_location df" and "main_spending_df df = Inr spending_df"
  shows "\<exists>totals. main_location_spending df = Inr totals
           \<and> sum_list (map snd totals) =
               amount_sum (filter (\<lambda>r. location r \<noteq> None) (rows spending_df))"
proof -
  from assms(2) obtain pre where "preprocess_data df = Inr pre"
    and sp: "spending_df = pre\<lparr>rows := filter (\<lambda>r. isin (event r) spending_events) (rows pre)\<rparr>"
    by (auto simp: main_spending_df_def split: sum.splits)
  then have "has_location pre"
    using assms(1) by (auto simp: preprocess_data_def split: if_splits)
  then have "has_location spending_df" using sp by simp
  then have "main_location_spending df =
      Inr (sort_values_desc (groupby_location_sum (rows spending_df)))"
    using assms(2) by (simp add: main_location_spending_def)
  moreover have "sum_list (map snd (sort_values_desc (groupby_location_sum (rows spending_df)))) =
      amount_sum (filter (\<lambda>r. location r \<noteq> None) (rows spending_df))"
    by (simp only: sort_values_desc_def sum_list_sort_key groupby_location_sum_total)
  ultimately show ?thesis by simp
qed

lemmas eval_main =
  main_location_spending_def main_spending_df_def preprocess_data_def float64_column_def
  str_contains_def denylist_def isin_def spending_events_def txn_def amount_sum_def
  groupby_location_sum_def group_keys_def sort_values_desc_def

lemma spending_shop_table:
  "main_spending_df shop_table =
     Inr \<lparr>has_location = True,
          rows = [(txn (mk_ts 20148 12 5 0) [] 3)\<lparr>location := None\<rparr>,
                  txn (mk_ts 20148 18 0 0) [65] 10]\<rparr>"
  by (simp add: shop_table_def eval_main)

text \<open>
  Claim C3 as stated fails: in \<open>shop_table\<close> the spending rows that pass the
  preprocessor amount to 13, of which 3 have no location; the only total is 10.
\<close>

theorem location_totals_miss_unlocated_spending:
  "main_spending_df shop_table =
     Inr \<lparr>has_location = True,
          rows = [(txn (mk_ts 20148 12 5 0) [] 3)\<lparr>location := None\<rparr>,
                  txn (mk_ts 20148 18 0 0) [65] 10]\<rparr>
   \<and> main_location_spending shop_table = Inr [([65], 10)]
   \<and> amount_sum [(txn (mk_ts 20148 12 5 0) [] 3)\<lparr>location := None\<rparr>,
                  txn (mk_ts 20148 18 0 0) [65] 10] = 13
   \<and> sum_list (map snd [([65 :: nat], 10 :: rat)])
       \<noteq> amount_sum [(txn (mk_ts 20148 12 5 0) [] 3)\<lparr>location := None\<rparr>,
                      txn (mk_ts 20148 18 0 0) [65] 10]"
  by (simp add: shop_table_def eval_main)

theorem location_totals_conserve_located_spending_witness:
  "has_location shop_table
   \<and> main_spending_df shop_table =
       Inr \<lparr>has_location = True,
            rows = [(txn (mk_ts 20148 12 5 0) [] 3)\<lparr>location := None\<rparr>,
                    txn (mk_ts 20148 18 0 0) [65] 10]\<rparr>
   \<and> main_location_spending shop_table = Inr [([65], 10)]
   \<and> amount_sum (filter (\<lambda>r. location r \<noteq> None)
         (rows \<lparr>has_location = True,
            rows = [(txn (mk_ts 20148 12 5 0) [] 3)\<lparr>location := None\<rparr>,
                    txn (mk_ts 20148 18 0 0) [65] 10]\<rparr>)) = 10"
proof -
  have h: "has_location shop_table" by (simp add: shop_table_def)
  have v: "main_location_spending shop_table = Inr [([65], 10)]"
    by (simp add: shop_table_def eval_main)
  from location_totals_conserve_located_spending [OF h spending_shop_table] h v
    spending_shop_table show ?thesis
    by auto
qed

text \<open>
  Claim C8 at a directory without CSV files that holds an older \<^verbatim>\<open>.xlsx\<close> file and a
  newer \<^verbatim>\<open>.xls\<close> file: the resolver prints that it chose the newest Excel file and
  returns the older one, because the two sorted lists are concatenated and not merged.
\<close>

theorem newest_excel_not_chosen:
  "find_data_file demo_fs None ''sheets'' = ([Newest_excel_chosen], Inr ''sheets/old.xlsx'')"
  by (simp add: find_data_file_def search_data_file_def glob_def demo_fs_def ends_with_def
      sorted_newest_first_def)

section \<open>Properties of the per-meal aggregates\<close>

lemma drop_dup_from_subset: "set (drop_dup_from key seen xs) \<subseteq> set xs"
  by (induction xs arbitrary: seen) auto

lemma drop_dup_from_keys:
  "key ` set (drop_dup_from key seen xs) = key ` set xs - set seen"
  by (induction xs arbitrary: seen) auto

lemma drop_dup_from_distinct: "distinct (map key (drop_dup_from key seen xs))"
proof (induction xs arbitrary: seen)
  case Nil
  show ?case by simp
next
  case (Cons x xs)
  have "key x \<notin> key ` set (drop_dup_from key (key x # seen) xs)"
    by (simp add: drop_dup_from_keys)
  then show ?case using Cons by simp
qed

lemma size_of_deduplicated_group:
  "length (filter (\<lambda>r. meal r = Some p) (drop_duplicates date_meal_key rs)) =
     card ((\<lambda>r. date_cell (time r)) ` {r \<in> set rs. meal r = Some p})"
proof -
  let ?dd = "drop_duplicates date_meal_key rs"
  let ?L = "filter (\<lambda>r. meal r = Some p) ?dd"
  let ?f = "\<lambda>r. date_cell (time r)"
  have "distinct (map date_meal_key ?L)"
    by (simp add: drop_duplicates_def drop_dup_from_distinct distinct_map_filter)
  moreover have "map date_meal_key ?L = map (\<lambda>r. (?f r, Some p)) ?L"
    by (simp add: date_meal_key_def)
  ultimately have "distinct (map (\<lambda>r. (?f r, Some p)) ?L)" by simp
  then have d: "distinct (map ?f ?L)"
    by (simp add: distinct_map inj_on_def)
  have keys: "date_meal_key ` set ?dd = date_meal_key ` set rs"
    by (simp add: drop_duplicates_def drop_dup_from_keys)
  have "?f ` set ?L = ?f ` {r \<in> set rs. meal r = Some p}"
  proof (intro set_eqI iffI)
    fix d assume "d \<in> ?f ` set ?L"
    then show "d \<in> ?f ` {r \<in> set rs. meal r = Some p}"
      using drop_dup_from_subset [of date_meal_key "[]" rs]
      by (auto simp: drop_duplicates_def)
  next
    fix d assume "d \<in> ?f ` {r \<in> set rs. meal r = Some p}"
    then obtain r where r: "r \<in> set rs" "meal r = Some p" "d = ?f r" by auto
    then have "date_meal_key r \<in> date_meal_key ` set ?dd" using keys by blast
    then obtain r' where "r' \<in> set ?dd" "date_meal_key r' = date_meal_key r" by auto
    with r have "r' \<in> set ?L" "?f r' = d"
      by (auto simp: date_meal_key_def)
    then show "d \<in> ?f ` set ?L" by blast
  qed
  then have "card (?f ` {r \<in> set rs. meal r = Some p}) = card (set (map ?f ?L))"
    by simp
  also have "\<dots> = length (map ?f ?L)"
    using d by (rule distinct_card)
  finally show ?thesis by simp
qed

lemma classified_has_stamp:
  assumes "k \<in> set (List.map_filter (classify_row parse) rs)"
  shows "\<exists>r\<in>set rs. \<exists>t. to_datetime parse (time r) = Stamp t \<and> time k = Stamp t
           \<and> meal k = cut bins labels (clock_minute t) \<and> meal k \<noteq> None"
proof -
  from assms obtain r where r: "r \<in> set rs" "classify_row parse r = Some k"
    by (auto simp: set_map_filter_conv)
  then show ?thesis
    by (auto simp: classify_row_def split: time_cell.splits option.splits)
qed

lemma visit_days_classified:
  assumes "\<forall>k\<in>set ks. \<exists>t. time k = Stamp t"
  shows "length (filter (\<lambda>r. meal r = Some p) (drop_duplicates date_meal_key ks)) =
         visit_days ks p"
proof -
  let ?S = "{r \<in> set ks. meal r = Some p}"
  let ?D = "{d. \<exists>r\<in>set ks. meal r = Some p \<and> date_cell (time r) = Some d}"
  have "(\<lambda>r. date_cell (time r)) ` ?S = Some ` ?D"
  proof (intro set_eqI iffI)
    fix c assume "c \<in> (\<lambda>r. date_cell (time r)) ` ?S"
    then obtain r where r: "r \<in> set ks" "meal r = Some p" "c = date_cell (time r)" by auto
    with assms obtain t where "time r = Stamp t" by blast
    with r show "c \<in> Some ` ?D" by (force simp: date_cell_def)
  next
    fix c assume "c \<in> Some ` ?D"
    then show "c \<in> (\<lambda>r. date_cell (time r)) ` ?S" by force
  qed
  then have "card ((\<lambda>r. date_cell (time r)) ` ?S) = card (Some ` ?D)" by simp
  also have "\<dots> = card ?D" by (simp add: card_image)
  finally show ?thesis
    by (simp add: size_of_deduplicated_group visit_days_def)
qed

lemma visit_days_kept:
  "length (filter (\<lambda>r. meal r = Some p)
      (drop_duplicates date_meal_key (List.map_filter (classify_row parse) rs))) =
    visit_days (List.map_filter (classify_row parse) rs) p"
  by (rule visit_days_classified) (use classified_has_stamp in blast)

lemma map_of_labels:
  "map_of (map (\<lambda>p. (p, f p)) labels) p = Some (f p)"
  by (cases p) (simp_all add: labels_def)

lemma reindex_labels:
  "reindex (Some labels) fill (map (\<lambda>p. (p, f p)) labels) = map (\<lambda>p. (p, f p)) labels"
  by (simp add: map_of_labels)

lemma fill_divide_where:
  "fillna 0 (divide_cell x (where_nonzero c)) = Fin (if c = 0 then 0 else x / of_nat c)"
  by (simp add: where_nonzero_def)

lemma divide_where_fillna_labels:
  "divide_where_fillna (map (\<lambda>p. (p, f p)) labels) (map (\<lambda>p. (p, g p)) labels) =
     map (\<lambda>p. (p, Fin (if g p = 0 then 0 else f p / of_nat (g p)))) labels"
  by (simp add: divide_where_fillna_def labels_def fill_divide_where)

lemma create_meal_avg_chart_eq:
  "create_meal_avg_chart parse df =
     (let ks = List.map_filter (classify_row parse) (rows df) in
      if rows (dropna_time (coerce_time parse df)) = [] then Skipped No_time_data
      else if ks = [] then Skipped No_rows_in_window
      else Done (map (\<lambda>p. (p, Fin (if visit_days ks p = 0 then 0
                  else amount_sum (filter (\<lambda>r. meal r = Some p) ks) / of_nat (visit_days ks p))))
             labels))"
  by (simp add: create_meal_avg_chart_def prepare_eq Let_def groupby_meal_sum_def
      groupby_meal_size_def reindex_labels divide_where_fillna_labels visit_days_kept
      del: reindex.simps)

text \<open>
  Claim C2. The per-meal-average aggregator never raises. Whenever the classifier keeps a
  row it produces the averages, one for each of the four periods in their fixed order, and
  the average of a period is the sum of the amounts of its rows divided by its number of
  distinct (date, period) visits, and is 0 when that number is 0; it is always a finite
  number. (When the classifier keeps no row the aggregator prints its skip message and
  computes nothing.)
\<close>

theorem per_meal_average:
  "(\<forall>x. create_meal_avg_chart parse df \<noteq> Raised x)
   \<and> (returned_rows (prepare_meal_period_data parse df) \<noteq> [] \<longrightarrow>
        (\<exists>avg. create_meal_avg_chart parse df = Done avg))
   \<and> (returned_rows (prepare_meal_period_data parse df) = [] \<longrightarrow>
        (\<exists>reason. create_meal_avg_chart parse df = Skipped reason))
   \<and> (\<forall>avg. create_meal_avg_chart parse df = Done avg \<longrightarrow>
        map fst avg = [Breakfast, Lunch, Dinner, LateSnack]
        \<and> (\<forall>p. map_of avg p =
              Some (Fin (if visit_days (returned_rows (prepare_meal_period_data parse df)) p = 0
                         then 0
                         else amount_sum (filter (\<lambda>r. meal r = Some p)
                                (returned_rows (prepare_meal_period_data parse df)))
                              / of_nat (visit_days
                                  (returned_rows (prepare_meal_period_data parse df)) p)))))"
proof -
  let ?ks = "List.map_filter (classify_row parse) (rows df)"
  let ?g = "\<lambda>p. Fin (if visit_days ?ks p = 0 then 0
                  else amount_sum (filter (\<lambda>r. meal r = Some p) ?ks) / of_nat (visit_days ?ks p))"
  have a: "\<forall>x. create_meal_avg_chart parse df \<noteq> Raised x"
    by (simp add: create_meal_avg_chart_eq Let_def)
  have b: "?ks \<noteq> [] \<longrightarrow> (\<exists>avg. create_meal_avg_chart parse df = Done avg)"
    using no_stamp_no_classified [of parse df]
    by (auto simp: create_meal_avg_chart_eq Let_def)
  have b': "?ks = [] \<longrightarrow> (\<exists>reason. create_meal_avg_chart parse df = Skipped reason)"
    by (simp add: create_meal_avg_chart_eq Let_def)
  have c: "\<forall>avg. create_meal_avg_chart parse df = Done avg \<longrightarrow>
        map fst avg = [Breakfast, Lunch, Dinner, LateSnack] \<and> (\<forall>p. map_of avg p = Some (?g p))"
  proof (intro allI impI)
    fix avg assume "create_meal_avg_chart parse df = Done avg"
    then have avg: "avg = map (\<lambda>p. (p, ?g p)) labels"
      by (simp add: create_meal_avg_chart_eq Let_def split: if_splits)
    have "map fst avg = [Breakfast, Lunch, Dinner, LateSnack]"
      unfolding avg by (simp add: labels_def)
    moreover have "\<forall>p. map_of avg p = Some (?g p)"
      unfolding avg by (simp only: map_of_labels) simp
    ultimately show "map fst avg = [Breakfast, Lunch, Dinner, LateSnack]
        \<and> (\<forall>p. map_of avg p = Some (?g p))" by blast
  qed
  show ?thesis
    unfolding returned_rows_prepare using a b b' c by (intro conjI)
qed

lemmas eval_meal_chart =
  groupby_meal_sum_def groupby_meal_size_def labels_def txn_def mk_ts_def
  drop_duplicates_def date_meal_key_def date_cell_def date_of_def amount_sum_def
  divide_where_fillna_def where_nonzero_def

lemma prepare_breakfast_table:
  "prepare_meal_period_data no_parse breakfast_table =
     (Some \<lparr>has_location = True,
        rows = [(txn (mk_ts 20148 7 0 0) [65] 10)\<lparr>meal := Some Breakfast\<rparr>,
                (txn (mk_ts 20148 7 10 0) [65] 5)\<lparr>meal := Some Breakfast\<rparr>]\<rparr>,
      Some labels, None)"
  by (simp add: eval_classify breakfast_table_def)

theorem per_meal_average_witness:
  "returned_rows (prepare_meal_period_data no_parse breakfast_table) \<noteq> []
   \<and> create_meal_avg_chart no_parse breakfast_table =
       Done [(Breakfast, Fin 15), (Lunch, Fin 0), (Dinner, Fin 0), (LateSnack, Fin 0)]
   \<and> (if visit_days (returned_rows (prepare_meal_period_data no_parse breakfast_table)) Breakfast = 0
       then 0
       else amount_sum (filter (\<lambda>r. meal r = Some Breakfast)
              (returned_rows (prepare_meal_period_data no_parse breakfast_table)))
            / of_nat (visit_days
                (returned_rows (prepare_meal_period_data no_parse breakfast_table)) Breakfast)) = 15"
proof -
  have k: "returned_rows (prepare_meal_period_data no_parse breakfast_table) \<noteq> []"
    by (simp add: returned_rows_def prepare_breakfast_table)
  have v: "create_meal_avg_chart no_parse breakfast_table =
       Done [(Breakfast, Fin 15), (Lunch, Fin 0), (Dinner, Fin 0), (LateSnack, Fin 0)]"
    by (simp add: create_meal_avg_chart_def prepare_breakfast_table eval_meal_chart)
  let ?e = "if visit_days (returned_rows (prepare_meal_period_data no_parse breakfast_table)) Breakfast = 0
       then 0
       else amount_sum (filter (\<lambda>r. meal r = Some Breakfast)
              (returned_rows (prepare_meal_period_data no_parse breakfast_table)))
            / of_nat (visit_days
                (returned_rows (prepare_meal_period_data no_parse breakfast_table)) Breakfast)"
  let ?avg = "[(Breakfast, Fin 15), (Lunch, Fin 0), (Dinner, Fin 0), (LateSnack, Fin 0)]"
  from per_meal_average [of no_parse breakfast_table] v
  have a: "map_of ?avg Breakfast = Some (Fin ?e)"
    by blast
  have b: "map_of ?avg Breakfast = Some (Fin 15)"
    by simp
  have "Some (Fin ?e) = Some (Fin 15)"
    by (rule trans [OF a [symmetric] b])
  then have "?e = 15"
    by (simp only: option.inject fnum.inject)
  with k v show ?thesis by blast
qed

section \<open>Properties of the attendance rate\<close>
















section \<open>Properties of the extremes table\<close>

lemma sort_key_first:
  assumes "xs \<noteq> []"
  shows "sort_key f xs ! 0 \<in> set xs" and "\<forall>x\<in>set xs. f (sort_key f xs ! 0) \<le> f x"
proof -
  obtain y ys where ys: "sort_key f xs = y # ys"
    using assms by (cases "sort_key f xs") (auto dest: arg_cong [where f = length])
  have "set (y # ys) = set xs" using ys [symmetric] by simp
  moreover have "sorted (map f (y # ys))" using ys [symmetric] by simp
  ultimately show "sort_key f xs ! 0 \<in> set xs" "\<forall>x\<in>set xs. f (sort_key f xs ! 0) \<le> f x"
    using ys by auto
qed

lemma idxmax_from_spec:
  assumes "best < length pre" "\<forall>w\<in>set pre. w \<le> pre ! best" "\<forall>k<best. pre ! k < pre ! best"
  shows "idxmax_from (length pre) best (pre ! best) xs < length (pre @ xs)
         \<and> (\<forall>w\<in>set (pre @ xs). w \<le> (pre @ xs) ! idxmax_from (length pre) best (pre ! best) xs)
         \<and> (\<forall>k<idxmax_from (length pre) best (pre ! best) xs.
               (pre @ xs) ! k < (pre @ xs) ! idxmax_from (length pre) best (pre ! best) xs)"
  using assms
proof (induction xs arbitrary: pre best)
  case Nil
  then show ?case by simp
next
  case (Cons x xs)
  let ?pre' = "pre @ [x]"
  show ?case
  proof (cases "pre ! best < x")
    case True
    have b: "length pre < length ?pre'" by simp
    have v: "?pre' ! length pre = x" by simp
    have m: "\<forall>w\<in>set ?pre'. w \<le> ?pre' ! length pre"
      using Cons.prems(2) True by (auto simp: nth_append)
    have f: "\<forall>k<length pre. ?pre' ! k < ?pre' ! length pre"
    proof (intro allI impI)
      fix k assume k: "k < length pre"
      then have "pre ! k \<le> pre ! best" using Cons.prems(2) by simp
      then show "?pre' ! k < ?pre' ! length pre" using True k by (simp add: nth_append)
    qed
    from Cons.IH [OF b m f] True show ?thesis
      by (simp add: v)
  next
    case False
    have b: "best < length ?pre'" using Cons.prems(1) by simp
    have e: "?pre' ! best = pre ! best" using Cons.prems(1) by (simp add: nth_append)
    have m: "\<forall>w\<in>set ?pre'. w \<le> ?pre' ! best"
      using Cons.prems(2) False e by auto
    have f: "\<forall>k<best. ?pre' ! k < ?pre' ! best"
      using Cons.prems(1,3) by (simp add: nth_append)
    from Cons.IH [OF b m f] False show ?thesis
      by (simp add: e)
  qed
qed

lemma idxmax_spec:
  assumes "idxmax xs = Some j"
  shows "j < length xs \<and> (\<forall>w\<in>set xs. w \<le> xs ! j) \<and> (\<forall>k<j. xs ! k < xs ! j)"
proof (cases xs)
  case Nil
  with assms show ?thesis by simp
next
  case (Cons x xs')
  have "idxmax_from (length [x]) 0 ([x] ! 0) xs' < length ([x] @ xs')
         \<and> (\<forall>w\<in>set ([x] @ xs'). w \<le> ([x] @ xs') ! idxmax_from (length [x]) 0 ([x] ! 0) xs')
         \<and> (\<forall>k<idxmax_from (length [x]) 0 ([x] ! 0) xs'.
               ([x] @ xs') ! k < ([x] @ xs') ! idxmax_from (length [x]) 0 ([x] ! 0) xs')"
    by (rule idxmax_from_spec) simp_all
  moreover have "j = idxmax_from 1 0 x xs'" using assms Cons by simp
  ultimately show ?thesis using Cons by simp
qed

lemma pick_max_amount_spec:
  assumes "data \<noteq> []"
  shows "\<exists>i<length data. pick_max_amount data = Some (data ! i)
           \<and> (\<forall>w\<in>set data. total_amount w \<le> total_amount (data ! i))
           \<and> (\<forall>j<i. total_amount (data ! j) < total_amount (data ! i))"
proof -
  obtain i where i: "idxmax (map total_amount data) = Some i"
    using assms by (cases data) auto
  from idxmax_spec [OF i] have "i < length data"
    and "\<forall>w\<in>set data. total_amount w \<le> total_amount (data ! i)"
    and "\<forall>j<i. total_amount (data ! j) < total_amount (data ! i)"
    by auto
  moreover have "pick_max_amount data = Some (data ! i)"
    using assms i by (simp add: pick_max_amount_def)
  ultimately show ?thesis by blast
qed

lemma pick_first_row_spec:
  assumes "w \<in> set data" "first_time w = Some u"
  shows "\<exists>v t. pick_first_row data = Some v \<and> v \<in> set data \<and> first_time v = Some t \<and> t \<le> u"
proof -
  let ?v = "sort_key (\<lambda>v. na_last (first_time v)) data ! 0"
  have ne: "data \<noteq> []" using assms by auto
  from sort_key_first [OF ne, of "\<lambda>v. na_last (first_time v)"] assms
  have v: "?v \<in> set data" and le: "na_last (first_time ?v) \<le> na_last (first_time w)"
    by auto
  from le assms(2) obtain t where "first_time ?v = Some t" "t \<le> u"
    by (cases "first_time ?v") (auto simp: na_last_def less_eq_prod_def)
  then show ?thesis using v ne by (simp add: pick_first_row_def)
qed


lemma earliest_breakfast_spec:
  assumes "w \<in> set data" "visit_meal w = Breakfast" "first_time w = Some u"
    and clk: "\<forall>v\<in>set data. clock_minutes v = map_option clock_of (first_time v)"
  shows "\<exists>v t. earliest_breakfast data = Some v \<and> v \<in> set data \<and> visit_meal v = Breakfast
           \<and> first_time v = Some t
           \<and> (clock_of t < clock_of u \<or> clock_of t = clock_of u \<and> t \<le> u)"
proof -
  let ?bm = "filter (\<lambda>v. visit_meal v = Breakfast) data"
  let ?K = "\<lambda>v. (na_last (clock_minutes v), na_last (first_time v))"
  let ?v = "sort_key ?K ?bm ! 0"
  have w: "w \<in> set ?bm" using assms by simp
  then have ne: "?bm \<noteq> []" by (metis empty_iff empty_set)
  from sort_key_first [OF ne, of ?K] w
  have v: "?v \<in> set ?bm" and le: "?K ?v \<le> ?K w" by auto
  have cw: "clock_minutes w = Some (clock_of u)" using clk assms(1,3) by simp
  have cv: "clock_minutes ?v = map_option clock_of (first_time ?v)" using clk v by simp
  have "\<exists>t. first_time ?v = Some t
      \<and> (clock_of t < clock_of u \<or> clock_of t = clock_of u \<and> t \<le> u)"
  proof (cases "first_time ?v")
    case None
    with le cw assms(3) cv show ?thesis
      by (simp add: na_last_def less_eq_prod_def less_prod_def)
  next
    case (Some t)
    with le cw assms(3) cv
    have "clock_of t < clock_of u \<or> clock_of t \<le> clock_of u \<and> t \<le> u"
      by (simp add: na_last_def less_eq_prod_def less_prod_def)
    then have "clock_of t < clock_of u \<or> clock_of t = clock_of u \<and> t \<le> u"
      by linarith
    with Some show ?thesis by simp
  qed
  then obtain t where "first_time ?v = Some t"
    "clock_of t < clock_of u \<or> clock_of t = clock_of u \<and> t \<le> u"
    by blast
  moreover have "earliest_breakfast data = Some ?v"
    using ne by (simp add: earliest_breakfast_def)
  ultimately show ?thesis using v by auto
qed

lemma latest_night_spec:
  assumes "w \<in> set data" "visit_meal w = LateSnack" "first_time w = Some u"
    and clk: "\<forall>v\<in>set data. clock_minutes v = map_option clock_of (first_time v)"
  shows "\<exists>v t. latest_night data = Some v \<and> v \<in> set data \<and> visit_meal v = LateSnack
           \<and> first_time v = Some t
           \<and> (clock_of u < clock_of t \<or> clock_of t = clock_of u \<and> u \<le> t)"
proof -
  let ?nm = "filter (\<lambda>v. visit_meal v = LateSnack) data"
  let ?K = "\<lambda>v. (na_last_desc (clock_minutes v), na_last_desc (first_time v))"
  let ?v = "sort_key ?K ?nm ! 0"
  have w: "w \<in> set ?nm" using assms by simp
  then have ne: "?nm \<noteq> []" by (metis empty_iff empty_set)
  from sort_key_first [OF ne, of ?K] w
  have v: "?v \<in> set ?nm" and le: "?K ?v \<le> ?K w" by auto
  have cw: "clock_minutes w = Some (clock_of u)" using clk assms(1,3) by simp
  have cv: "clock_minutes ?v = map_option clock_of (first_time ?v)" using clk v by simp
  have "\<exists>t. first_time ?v = Some t
      \<and> (clock_of u < clock_of t \<or> clock_of t = clock_of u \<and> u \<le> t)"
  proof (cases "first_time ?v")
    case None
    with le cw assms(3) cv show ?thesis
      by (simp add: na_last_desc_def less_eq_prod_def less_prod_def)
  next
    case (Some t)
    with le cw assms(3) cv
    have "clock_of u < clock_of t \<or> clock_of u \<le> clock_of t \<and> u \<le> t"
      by (simp add: na_last_desc_def less_eq_prod_def less_prod_def)
    then have "clock_of u < clock_of t \<or> clock_of t = clock_of u \<and> u \<le> t"
      by linarith
    with Some show ?thesis by simp
  qed
  then obtain t where "first_time ?v = Some t"
    "clock_of u < clock_of t \<or> clock_of t = clock_of u \<and> u \<le> t"
    by blast
  moreover have "latest_night data = Some ?v"
    using ne by (simp add: latest_night_def)
  ultimately show ?thesis using v by auto
qed

lemma no_breakfast_no_record:
  assumes "\<forall>w\<in>set data. visit_meal w = Breakfast \<longrightarrow> first_time w = None"
  shows "format_row (earliest_breakfast data) = [No_record, No_record, No_record]"
proof (cases "filter (\<lambda>v. visit_meal v = Breakfast) data = []")
  case True
  then show ?thesis by (simp add: earliest_breakfast_def format_row_def)
next
  case False
  let ?K = "\<lambda>v. (na_last (clock_minutes v), na_last (first_time v))"
  from sort_key_first(1) [OF False, of ?K] assms
  have "first_time (sort_key ?K (filter (\<lambda>v. visit_meal v = Breakfast) data) ! 0) = None"
    by auto
  then show ?thesis using False by (simp add: earliest_breakfast_def format_row_def)
qed

lemma no_night_no_record:
  assumes "\<forall>w\<in>set data. visit_meal w = LateSnack \<longrightarrow> first_time w = None"
  shows "format_row (latest_night data) = [No_record, No_record, No_record]"
proof (cases "filter (\<lambda>v. visit_meal v = LateSnack) data = []")
  case True
  then show ?thesis by (simp add: latest_night_def format_row_def)
next
  case False
  let ?K = "\<lambda>v. (na_last_desc (clock_minutes v), na_last_desc (first_time v))"
  from sort_key_first(1) [OF False, of ?K] assms
  have "first_time (sort_key ?K (filter (\<lambda>v. visit_meal v = LateSnack) data) ! 0) = None"
    by auto
  then show ?thesis using False by (simp add: latest_night_def format_row_def)
qed

lemma no_visit_no_record:
  assumes "\<forall>w\<in>set data. first_time w = None"
  shows "format_row (pick_first_row data) = [No_record, No_record, No_record]"
    and "format_row (pick_max_amount data) = [No_record, No_record, No_record]"
proof -
  show "format_row (pick_first_row data) = [No_record, No_record, No_record]"
  proof (cases "data = []")
    case True
    then show ?thesis by (simp add: pick_first_row_def format_row_def)
  next
    case False
    from sort_key_first(1) [OF False, of "\<lambda>v. na_last (first_time v)"] assms
    have "first_time (sort_key (\<lambda>v. na_last (first_time v)) data ! 0) = None" by auto
    then show ?thesis using False by (simp add: pick_first_row_def format_row_def)
  qed
  show "format_row (pick_max_amount data) = [No_record, No_record, No_record]"
  proof (cases "data = []")
    case True
    then show ?thesis by (simp add: pick_max_amount_def format_row_def)
  next
    case False
    from pick_max_amount_spec [OF False] obtain i where "i < length data"
      "pick_max_amount data = Some (data ! i)" by blast
    moreover from this assms have "first_time (data ! i) = None" by simp
    ultimately show ?thesis by (simp add: format_row_def)
  qed
qed

lemma first_valid_in: "first_valid cs = Some v \<Longrightarrow> Some v \<in> set cs"
  by (induction cs rule: first_valid.induct) auto

lemma first_valid_None: "first_valid cs = None \<Longrightarrow> \<forall>c\<in>set cs. c = None"
  by (induction cs rule: first_valid.induct) auto

lemma first_valid_sorted_least:
  fixes h :: "'a \<Rightarrow> int option"
  assumes "sorted (map (\<lambda>r. na_last (h r)) g)" "first_valid (map h g) = Some t"
    "r \<in> set g" "h r = Some t'"
  shows "t \<le> t'"
proof (cases g)
  case Nil
  with assms(3) show ?thesis by simp
next
  case (Cons x xs)
  from assms(1) Cons have le: "\<forall>y\<in>set xs. na_last (h x) \<le> na_last (h y)"
    by simp
  show ?thesis
  proof (cases "h x")
    case None
    with assms(2) Cons have "first_valid (map h xs) = Some t" by simp
    then have "Some t \<in> set (map h xs)" by (rule first_valid_in)
    then obtain y where "y \<in> set xs" "h y = Some t" by auto
    with le None show ?thesis
      by (auto simp: na_last_def less_eq_prod_def less_prod_def)
  next
    case (Some a)
    with assms(2) Cons have ta: "t = a" by simp
    show ?thesis
    proof (cases "r = x")
      case True
      with Some assms(4) ta show ?thesis by simp
    next
      case False
      with assms(3) Cons have "r \<in> set xs" by simp
      with le have "na_last (h x) \<le> na_last (h r)" by blast
      with Some assms(4) ta show ?thesis
        by (simp add: na_last_def less_eq_prod_def less_prod_def)
    qed
  qed
qed

text \<open>
  The records of the meal summary: a record has a first time exactly when its date and
  period have a transaction; the first time is the least time of these transactions and
  the total is the sum of their amounts; a record without a first time has total 0 and
  exists only when the grouping lists the pairs that do not occur.
\<close>

lemma meal_summary_record:
  assumes "v \<in> set (meal_summary_of observed df_sorted rs)"
  shows "first_time v =
           first_valid (map (\<lambda>r. stamp_of (time r))
             (filter (\<lambda>r. date_cell (time r) = Some (visit_date v)
                           \<and> meal r = Some (visit_meal v)) df_sorted))"
    and "total_amount v =
           amount_sum (filter (\<lambda>r. date_cell (time r) = Some (visit_date v)
                                   \<and> meal r = Some (visit_meal v)) rs)"
    and "clock_minutes v = map_option clock_of (first_time v)"
    and "observed \<longrightarrow> (\<exists>r\<in>set rs. date_cell (time r) = Some (visit_date v)
                                     \<and> meal r = Some (visit_meal v))"
  using assms by (auto simp: meal_summary_of_def Let_def list_ex_iff)

lemma meal_summary_has_record:
  assumes "r \<in> set rs" "date_cell (time r) = Some d" "meal r = Some p"
  shows "\<exists>v\<in>set (meal_summary_of observed df_sorted rs). visit_date v = d \<and> visit_meal v = p"
proof -
  have d: "d \<in> set (group_keys (map (\<lambda>r. date_cell (time r)) rs))"
    using assms(1,2) by (force simp: group_keys_props(2))
  have "p \<in> set labels" by (cases p) (simp_all add: labels_def)
  moreover have "list_ex (\<lambda>r. date_cell (time r) = Some d \<and> meal r = Some p) rs"
    using assms by (auto simp: list_ex_iff)
  ultimately have p: "p \<in> set (filter (\<lambda>p. \<not> observed
        \<or> list_ex (\<lambda>r. date_cell (time r) = Some d \<and> meal r = Some p) rs) labels)"
    by simp
  show ?thesis
    unfolding meal_summary_of_def Let_def set_concat set_map
    using d p by fastforce
qed

lemma meal_summary_first_time:
  assumes perm: "mset df_sorted = mset rs"
    and v: "v \<in> set (meal_summary_of observed df_sorted rs)" and t: "first_time v = Some t"
  shows "\<exists>r\<in>set rs. time r = Stamp t \<and> meal r = Some (visit_meal v)
           \<and> date_cell (time r) = Some (visit_date v)"
proof -
  let ?g = "filter (\<lambda>r. date_cell (time r) = Some (visit_date v)
                         \<and> meal r = Some (visit_meal v)) df_sorted"
  from meal_summary_record(1) [OF v] t
  have "first_valid (map (\<lambda>r. stamp_of (time r)) ?g) = Some t" by simp
  then have "Some t \<in> set (map (\<lambda>r. stamp_of (time r)) ?g)"
    by (rule first_valid_in)
  then obtain r where r: "r \<in> set ?g" "stamp_of (time r) = Some t" by auto
  then have "time r = Stamp t" by (cases "time r") simp_all
  moreover have "set df_sorted = set rs" using perm by (rule mset_eq_setD)
  ultimately show ?thesis using r by auto
qed

lemma meal_summary_group_has_time:
  assumes perm: "mset df_sorted = mset rs"
    and stamps: "\<forall>r\<in>set rs. \<exists>t. time r = Stamp t"
    and v: "v \<in> set (meal_summary_of observed df_sorted rs)"
    and r: "r \<in> set rs" "date_cell (time r) = Some (visit_date v)" "meal r = Some (visit_meal v)"
  shows "first_time v \<noteq> None"
proof
  let ?g = "filter (\<lambda>r. date_cell (time r) = Some (visit_date v)
                         \<and> meal r = Some (visit_meal v)) df_sorted"
  assume "first_time v = None"
  with meal_summary_record(1) [OF v]
  have "first_valid (map (\<lambda>r. stamp_of (time r)) ?g) = None" by simp
  then have none: "\<forall>c\<in>set (map (\<lambda>r. stamp_of (time r)) ?g). c = None"
    by (rule first_valid_None)
  have "set df_sorted = set rs" using perm by (rule mset_eq_setD)
  with r have "r \<in> set ?g" by simp
  then have "stamp_of (time r) \<in> set (map (\<lambda>r. stamp_of (time r)) ?g)"
    unfolding set_map by (rule imageI)
  with none have "stamp_of (time r) = None" by blast
  moreover from stamps r(1) obtain t where "time r = Stamp t" by blast
  ultimately show False by simp
qed

lemma meal_summary_empty_group:
  assumes perm: "mset df_sorted = mset rs"
    and stamps: "\<forall>r\<in>set rs. \<exists>t. time r = Stamp t"
    and v: "v \<in> set (meal_summary_of observed df_sorted rs)" and none: "first_time v = None"
  shows "total_amount v = 0" and "\<not> observed"
proof -
  let ?G = "\<lambda>r. date_cell (time r) = Some (visit_date v) \<and> meal r = Some (visit_meal v)"
  have no: "\<not> (\<exists>r\<in>set rs. ?G r)"
    using meal_summary_group_has_time [OF perm stamps v] none by blast
  then have "filter ?G rs = []" by (simp add: filter_empty_conv)
  with meal_summary_record(2) [OF v] show "total_amount v = 0"
    by (simp add: amount_sum_Nil)
  from no meal_summary_record(4) [OF v] show "\<not> observed" by blast
qed

lemma meal_summary_first_is_least:
  assumes perm: "mset df_sorted = mset rs"
    and srt: "sorted (map (\<lambda>r. na_last (stamp_of (time r))) df_sorted)"
    and v: "v \<in> set (meal_summary_of observed df_sorted rs)" and t: "first_time v = Some t"
    and r: "r \<in> set rs" "date_cell (time r) = Some (visit_date v)" "meal r = Some (visit_meal v)"
    and t': "time r = Stamp t'"
  shows "t \<le> t'"
proof -
  let ?K = "\<lambda>r. na_last (stamp_of (time r))"
  let ?G = "\<lambda>r. date_cell (time r) = Some (visit_date v) \<and> meal r = Some (visit_meal v)"
  let ?g = "filter ?G df_sorted"
  from meal_summary_record(1) [OF v] t
  have fv: "first_valid (map (\<lambda>r. stamp_of (time r)) ?g) = Some t" by simp
  have s: "sorted (map ?K ?g)"
    using srt by (rule sorted_filter)
  have "set df_sorted = set rs" using perm by (rule mset_eq_setD)
  with r have "r \<in> set ?g" by simp
  moreover have "stamp_of (time r) = Some t'" using t' by simp
  ultimately show ?thesis
    using first_valid_sorted_least [of "\<lambda>r. stamp_of (time r)" ?g t r t'] s fv by blast
qed

lemma visit_iff_transactions:
  assumes perm: "mset df_sorted = mset rs"
    and stamps: "\<forall>r\<in>set rs. \<exists>t. time r = Stamp t"
    and v: "v \<in> set (meal_summary_of observed df_sorted rs)"
  shows "first_time v \<noteq> None \<longleftrightarrow>
           (\<exists>r\<in>set rs. date_cell (time r) = Some (visit_date v) \<and> meal r = Some (visit_meal v))"
proof
  assume "first_time v \<noteq> None"
  then obtain t where "first_time v = Some t" by blast
  from meal_summary_first_time [OF perm v this]
  show "\<exists>r\<in>set rs. date_cell (time r) = Some (visit_date v) \<and> meal r = Some (visit_meal v)"
    by blast
next
  assume "\<exists>r\<in>set rs. date_cell (time r) = Some (visit_date v) \<and> meal r = Some (visit_meal v)"
  then show "first_time v \<noteq> None"
    using meal_summary_group_has_time [OF perm stamps v] by blast
qed

text \<open>
  \<^verbatim>\<open>idxmax\<close> ranges over the records without a first time too. It selects a visit when
  the grouping lists only the pairs that occur, or when some total is positive.
\<close>

lemma pick_max_amount_visit:
  assumes perm: "mset df_sorted = mset rs"
    and stamps: "\<forall>r\<in>set rs. \<exists>t. time r = Stamp t"
    and pos: "observed \<or> (\<exists>w\<in>set (meal_summary_of observed df_sorted rs). 0 < total_amount w)"
    and ne: "meal_summary_of observed df_sorted rs \<noteq> []"
  shows "\<exists>i<length (meal_summary_of observed df_sorted rs).
           pick_max_amount (meal_summary_of observed df_sorted rs)
             = Some (meal_summary_of observed df_sorted rs ! i)
           \<and> first_time (meal_summary_of observed df_sorted rs ! i) \<noteq> None
           \<and> (\<forall>w\<in>set (meal_summary_of observed df_sorted rs).
                 total_amount w \<le> total_amount (meal_summary_of observed df_sorted rs ! i))
           \<and> (\<forall>j<i. total_amount (meal_summary_of observed df_sorted rs ! j)
                       < total_amount (meal_summary_of observed df_sorted rs ! i))"
proof -
  let ?ms = "meal_summary_of observed df_sorted rs"
  from pick_max_amount_spec [OF ne] obtain i where i: "i < length ?ms"
    "pick_max_amount ?ms = Some (?ms ! i)"
    "\<forall>w\<in>set ?ms. total_amount w \<le> total_amount (?ms ! i)"
    "\<forall>j<i. total_amount (?ms ! j) < total_amount (?ms ! i)"
    by blast
  have mem: "?ms ! i \<in> set ?ms" using i(1) by simp
  have "first_time (?ms ! i) \<noteq> None"
  proof
    assume none: "first_time (?ms ! i) = None"
    from meal_summary_empty_group [OF perm stamps mem none]
    have z: "total_amount (?ms ! i) = 0" and "\<not> observed" by simp_all
    with pos obtain w where "w \<in> set ?ms" "0 < total_amount w" by blast
    with i(3) z show False by force
  qed
  with i show ?thesis by blast
qed

text \<open>The table is built from the classified rows of the target year.\<close>

lemma create_yearly_extremes_table_eq:
  "create_yearly_extremes_table observed sort_values parse df year =
     (let yr = filter_year year (dropna_time (coerce_time parse df)) in
      if rows yr = [] then Skipped No_year_rows
      else if rows (dropna_time (coerce_time parse yr)) = [] then Skipped No_time_data
      else if year_rows parse df year = [] then Skipped No_rows_in_window
      else if \<not> has_location df then Raised KeyError
      else Done (extremes_rows (meal_summary_of observed
                   (sort_values (year_rows parse df year)) (year_rows parse df year))))"
proof -
  have "has_location (filter_year year (dropna_time (coerce_time parse df))) = has_location df"
    by (simp add: filter_year_def dropna_time_def coerce_time_def)
  then show ?thesis
    by (simp add: create_yearly_extremes_table_def year_rows_def returned_rows_def
        prepare_eq Let_def)
qed

lemma year_rows_classified:
  assumes "k \<in> set (year_rows parse df year)"
  shows "\<exists>t. time k = Stamp t \<and> meal k = cut bins labels (clock_minute t) \<and> meal k \<noteq> None
           \<and> year_of t = year \<and> 390 \<le> clock_minute t \<and> clock_minute t < 1350"
proof -
  let ?yr = "filter_year year (dropna_time (coerce_time parse df))"
  from assms have "k \<in> set (List.map_filter (classify_row parse) (rows ?yr))"
    by (simp add: year_rows_def returned_rows_def prepare_eq split: if_splits)
  from classified_has_stamp [OF this] obtain r t
    where r: "r \<in> set (rows ?yr)"
      and t: "to_datetime parse (time r) = Stamp t" "time k = Stamp t"
      and m: "meal k = cut bins labels (clock_minute t)" "meal k \<noteq> None"
    by blast
  from r have "map_option year_of (stamp_of (time r)) = Some year"
    by (simp add: filter_year_def)
  then obtain t' where "time r = Stamp t'" "year_of t' = year"
    by (cases "time r") auto
  with t have "year_of t = year" by simp
  moreover from m have "390 \<le> clock_minute t \<and> clock_minute t < 1350"
    by (simp add: cut_bins_labels split: if_splits)
  ultimately show ?thesis using t(2) m by blast
qed

text \<open>Every sort by time leaves one row, and two rows in the order of their times, as they are.\<close>

lemma stable_sort_values_sorts: "sorts_by_time stable_sort_values"
  by (simp add: sorts_by_time_def stable_sort_values_def)

lemma any_sort_of_two_rows:
  assumes s: "sorts_by_time sort_values"
    and lt: "na_last (stamp_of (time a)) < na_last (stamp_of (time b))"
  shows "sort_values [a, b] = [a, b]"
proof -
  let ?K = "\<lambda>r. na_last (stamp_of (time r))"
  from s have m: "mset (sort_values [a, b]) = mset [a, b]"
    and srt: "sorted (map ?K (sort_values [a, b]))"
    unfolding sorts_by_time_def by blast+
  from m have "length (sort_values [a, b]) = 2"
    by (metis length_Cons list.size(3) mset_eq_length numeral_2_eq_2)
  then obtain x y where xy: "sort_values [a, b] = [x, y]"
    by (metis (no_types, opaque_lifting) One_nat_def Suc_1 length_0_conv length_Suc_conv)
  with m have "x = a \<and> y = b \<or> x = b \<and> y = a"
    by (auto simp: add_eq_conv_ex)
  moreover from srt xy have "?K x \<le> ?K y" by simp
  ultimately show ?thesis using lt xy by auto
qed

lemma any_sort_of_one_row:
  assumes "sorts_by_time sort_values"
  shows "sort_values [r] = [r]"
proof -
  from assms have "mset (sort_values [r]) = mset [r]"
    unfolding sorts_by_time_def by blast
  then show ?thesis by simp
qed

subsection \<open>Worked examples\<close>

lemma year_2025_03_01: "year_of_days 20148 = 2025"
  unfolding year_of_days_def Let_def by simp

lemmas eval_summary =
  meal_summary_of_def Let_def txn_def group_keys_def labels_def date_cell_def
  date_of_def mk_ts_def amount_sum_def clock_of_def hour_of_def minute_of_def second_of_def

lemmas eval_extremes =
  extremes_rows_def pick_first_row_def earliest_breakfast_def latest_night_def
  pick_max_amount_def format_row_def na_last_def na_last_desc_def
  less_eq_prod_def less_prod_def mk_ts_def

text \<open>
  In the table with transactions at 23:00 and 20:00 the classifier drops the 23:00
  transaction, and the 20:00 visit is the latest night, the first meal and the most
  expensive meal, whatever the grouping and the sort.
\<close>

lemma year_rows_night_table:
  "filter_year 2025 (dropna_time (coerce_time no_parse night_table)) = night_table"
  by (simp add: filter_year_def dropna_time_def coerce_time_def night_table_def txn_def
      year_of_def date_of_def mk_ts_def year_2025_03_01)

lemma prepare_night_table:
  "prepare_meal_period_data no_parse night_table =
     (Some \<lparr>has_location = True,
        rows = [(txn (mk_ts 20148 20 0 0) [66] 6)\<lparr>meal := Some LateSnack\<rparr>]\<rparr>,
      Some labels, None)"
  by (simp add: eval_classify night_table_def)

lemma meal_summary_night_rows:
  "meal_summary_of observed
     [(txn (mk_ts 20148 20 0 0) [66] 6)\<lparr>meal := Some LateSnack\<rparr>]
     [(txn (mk_ts 20148 20 0 0) [66] 6)\<lparr>meal := Some LateSnack\<rparr>] =
     (if observed then [] else
      [\<lparr>visit_date = 20148, visit_meal = Breakfast, first_time = None,
         first_location = unknown, total_amount = 0, clock_minutes = None\<rparr>,
       \<lparr>visit_date = 20148, visit_meal = Lunch, first_time = None,
         first_location = unknown, total_amount = 0, clock_minutes = None\<rparr>,
       \<lparr>visit_date = 20148, visit_meal = Dinner, first_time = None,
         first_location = unknown, total_amount = 0, clock_minutes = None\<rparr>])
     @ [\<lparr>visit_date = 20148, visit_meal = LateSnack, first_time = Some (mk_ts 20148 20 0 0),
         first_location = [66], total_amount = 6, clock_minutes = Some 1200\<rparr>]"
  by (simp add: eval_summary)

lemma extremes_night_table:
  assumes "sorts_by_time sort_values"
  shows "create_yearly_extremes_table observed sort_values no_parse night_table 2025 =
     Done [(First_meal, [Place [66], Money 6, Moment (mk_ts 20148 20 0 0)]),
           (Earliest_breakfast, [No_record, No_record, No_record]),
           (Latest_night, [Place [66], Money 6, Moment (mk_ts 20148 20 0 0)]),
           (Most_expensive, [Place [66], Money 6, Moment (mk_ts 20148 20 0 0)])]"
proof -
  have "rows night_table \<noteq> []" by (simp add: night_table_def)
  then have "create_yearly_extremes_table observed sort_values no_parse night_table 2025 =
      Done (extremes_rows (meal_summary_of observed
        [(txn (mk_ts 20148 20 0 0) [66] 6)\<lparr>meal := Some LateSnack\<rparr>]
        [(txn (mk_ts 20148 20 0 0) [66] 6)\<lparr>meal := Some LateSnack\<rparr>]))"
    by (simp add: create_yearly_extremes_table_def year_rows_night_table prepare_night_table
        any_sort_of_one_row [OF assms])
  also have "\<dots> = Done [(First_meal, [Place [66], Money 6, Moment (mk_ts 20148 20 0 0)]),
           (Earliest_breakfast, [No_record, No_record, No_record]),
           (Latest_night, [Place [66], Money 6, Moment (mk_ts 20148 20 0 0)]),
           (Most_expensive, [Place [66], Money 6, Moment (mk_ts 20148 20 0 0)])]"
    unfolding meal_summary_night_rows by (cases observed) (simp_all add: eval_extremes)
  finally show ?thesis .
qed

text \<open>
  A single lunch for which nothing was paid: with the grouping that lists every pair, the
  breakfast record of the day, which has no transaction and total 0, comes before the
  lunch in the table and has the same total.
\<close>

lemma year_rows_free_lunch_table:
  "filter_year 2025 (dropna_time (coerce_time no_parse free_lunch_table)) = free_lunch_table"
  by (simp add: filter_year_def dropna_time_def coerce_time_def free_lunch_table_def txn_def
      year_of_def date_of_def mk_ts_def year_2025_03_01)

lemma prepare_free_lunch_table:
  "prepare_meal_period_data no_parse free_lunch_table =
     (Some \<lparr>has_location = True,
        rows = [(txn (mk_ts 20148 12 0 0) [65] 0)\<lparr>meal := Some Lunch\<rparr>]\<rparr>,
      Some labels, None)"
  by (simp add: eval_classify free_lunch_table_def)

lemma meal_summary_free_lunch_rows:
  "meal_summary_of False
     [(txn (mk_ts 20148 12 0 0) [65] 0)\<lparr>meal := Some Lunch\<rparr>]
     [(txn (mk_ts 20148 12 0 0) [65] 0)\<lparr>meal := Some Lunch\<rparr>] =
     [\<lparr>visit_date = 20148, visit_meal = Breakfast, first_time = None,
        first_location = unknown, total_amount = 0, clock_minutes = None\<rparr>,
      \<lparr>visit_date = 20148, visit_meal = Lunch, first_time = Some (mk_ts 20148 12 0 0),
        first_location = [65], total_amount = 0, clock_minutes = Some 720\<rparr>,
      \<lparr>visit_date = 20148, visit_meal = Dinner, first_time = None,
        first_location = unknown, total_amount = 0, clock_minutes = None\<rparr>,
      \<lparr>visit_date = 20148, visit_meal = LateSnack, first_time = None,
        first_location = unknown, total_amount = 0, clock_minutes = None\<rparr>]"
  by (simp add: eval_summary)

lemma free_lunch_shows_no_record:
  assumes "sorts_by_time sort_values"
  shows "create_yearly_extremes_table False sort_values no_parse free_lunch_table 2025 =
     Done [(First_meal, [Place [65], Money 0, Moment (mk_ts 20148 12 0 0)]),
           (Earliest_breakfast, [No_record, No_record, No_record]),
           (Latest_night, [No_record, No_record, No_record]),
           (Most_expensive, [No_record, No_record, No_record])]"
proof -
  have "rows free_lunch_table \<noteq> []" by (simp add: free_lunch_table_def)
  then have "create_yearly_extremes_table False sort_values no_parse free_lunch_table 2025 =
      Done (extremes_rows (meal_summary_of False
        [(txn (mk_ts 20148 12 0 0) [65] 0)\<lparr>meal := Some Lunch\<rparr>]
        [(txn (mk_ts 20148 12 0 0) [65] 0)\<lparr>meal := Some Lunch\<rparr>]))"
    by (simp add: create_yearly_extremes_table_def year_rows_free_lunch_table
        prepare_free_lunch_table any_sort_of_one_row [OF assms])
  then show ?thesis
    unfolding meal_summary_free_lunch_rows by (simp add: eval_extremes)
qed

text \<open>The table with the two refunds.\<close>

lemma year_rows_refund_table:
  "filter_year 2025 (dropna_time (coerce_time no_parse refund_table)) = refund_table"
  by (simp add: filter_year_def dropna_time_def coerce_time_def refund_table_def txn_def
      year_of_def date_of_def mk_ts_def year_2025_03_01)

lemma prepare_refund_table:
  "prepare_meal_period_data no_parse refund_table =
     (Some \<lparr>has_location = True,
        rows = [(txn (mk_ts 20148 12 0 0) [65] (- 5))\<lparr>meal := Some Lunch\<rparr>,
                (txn (mk_ts 20148 18 0 0) [66] (- 2))\<lparr>meal := Some Dinner\<rparr>]\<rparr>,
      Some labels, None)"
  by (simp add: eval_classify refund_table_def)

lemma meal_summary_refund_rows:
  "meal_summary_of False
     [(txn (mk_ts 20148 12 0 0) [65] (- 5))\<lparr>meal := Some Lunch\<rparr>,
      (txn (mk_ts 20148 18 0 0) [66] (- 2))\<lparr>meal := Some Dinner\<rparr>]
     [(txn (mk_ts 20148 12 0 0) [65] (- 5))\<lparr>meal := Some Lunch\<rparr>,
      (txn (mk_ts 20148 18 0 0) [66] (- 2))\<lparr>meal := Some Dinner\<rparr>] =
     [\<lparr>visit_date = 20148, visit_meal = Breakfast, first_time = None,
        first_location = unknown, total_amount = 0, clock_minutes = None\<rparr>,
      \<lparr>visit_date = 20148, visit_meal = Lunch, first_time = Some (mk_ts 20148 12 0 0),
        first_location = [65], total_amount = - 5, clock_minutes = Some 720\<rparr>,
      \<lparr>visit_date = 20148, visit_meal = Dinner, first_time = Some (mk_ts 20148 18 0 0),
        first_location = [66], total_amount = - 2, clock_minutes = Some 1080\<rparr>,
      \<lparr>visit_date = 20148, visit_meal = LateSnack, first_time = None,
        first_location = unknown, total_amount = 0, clock_minutes = None\<rparr>]"
  by (simp add: eval_summary)

lemma meal_summary_refund_rows_observed:
  "meal_summary_of True
     [(txn (mk_ts 20148 12 0 0) [65] (- 5))\<lparr>meal := Some Lunch\<rparr>,
      (txn (mk_ts 20148 18 0 0) [66] (- 2))\<lparr>meal := Some Dinner\<rparr>]
     [(txn (mk_ts 20148 12 0 0) [65] (- 5))\<lparr>meal := Some Lunch\<rparr>,
      (txn (mk_ts 20148 18 0 0) [66] (- 2))\<lparr>meal := Some Dinner\<rparr>] =
     [\<lparr>visit_date = 20148, visit_meal = Lunch, first_time = Some (mk_ts 20148 12 0 0),
        first_location = [65], total_amount = - 5, clock_minutes = Some 720\<rparr>,
      \<lparr>visit_date = 20148, visit_meal = Dinner, first_time = Some (mk_ts 20148 18 0 0),
        first_location = [66], total_amount = - 2, clock_minutes = Some 1080\<rparr>]"
  by (simp add: eval_summary)

lemma extremes_rows_refund:
  "extremes_rows
     [\<lparr>visit_date = 20148, visit_meal = Breakfast, first_time = None,
        first_location = unknown, total_amount = 0, clock_minutes = None\<rparr>,
      \<lparr>visit_date = 20148, visit_meal = Lunch, first_time = Some (mk_ts 20148 12 0 0),
        first_location = [65], total_amount = - 5, clock_minutes = Some 720\<rparr>,
      \<lparr>visit_date = 20148, visit_meal = Dinner, first_time = Some (mk_ts 20148 18 0 0),
        first_location = [66], total_amount = - 2, clock_minutes = Some 1080\<rparr>,
      \<lparr>visit_date = 20148, visit_meal = LateSnack, first_time = None,
        first_location = unknown, total_amount = 0, clock_minutes = None\<rparr>] =
     [(First_meal, [Place [65], Money (- 5), Moment (mk_ts 20148 12 0 0)]),
      (Earliest_breakfast, [No_record, No_record, No_record]),
      (Latest_night, [No_record, No_record, No_record]),
      (Most_expensive, [No_record, No_record, No_record])]"
  by (simp add: eval_extremes)

lemma extremes_rows_refund_observed:
  "extremes_rows
     [\<lparr>visit_date = 20148, visit_meal = Lunch, first_time = Some (mk_ts 20148 12 0 0),
        first_location = [65], total_amount = - 5, clock_minutes = Some 720\<rparr>,
      \<lparr>visit_date = 20148, visit_meal = Dinner, first_time = Some (mk_ts 20148 18 0 0),
        first_location = [66], total_amount = - 2, clock_minutes = Some 1080\<rparr>] =
     [(First_meal, [Place [65], Money (- 5), Moment (mk_ts 20148 12 0 0)]),
      (Earliest_breakfast, [No_record, No_record, No_record]),
      (Latest_night, [No_record, No_record, No_record]),
      (Most_expensive, [Place [66], Money (- 2), Moment (mk_ts 20148 18 0 0)])]"
  by (simp add: eval_extremes)

lemma extremes_refund_table:
  assumes "sorts_by_time sort_values"
  shows "create_yearly_extremes_table observed sort_values no_parse refund_table 2025 =
     Done (extremes_rows (meal_summary_of observed
       [(txn (mk_ts 20148 12 0 0) [65] (- 5))\<lparr>meal := Some Lunch\<rparr>,
        (txn (mk_ts 20148 18 0 0) [66] (- 2))\<lparr>meal := Some Dinner\<rparr>]
       [(txn (mk_ts 20148 12 0 0) [65] (- 5))\<lparr>meal := Some Lunch\<rparr>,
        (txn (mk_ts 20148 18 0 0) [66] (- 2))\<lparr>meal := Some Dinner\<rparr>]))"
proof -
  have ne: "rows refund_table \<noteq> []" by (simp add: refund_table_def)
  have "na_last (stamp_of (time ((txn (mk_ts 20148 12 0 0) [65] (- 5))\<lparr>meal := Some Lunch\<rparr>)))
        < na_last (stamp_of (time ((txn (mk_ts 20148 18 0 0) [66] (- 2))\<lparr>meal := Some Dinner\<rparr>)))"
    by (simp add: txn_def mk_ts_def na_last_def less_prod_def)
  from any_sort_of_two_rows [OF assms this] ne show ?thesis
    by (simp add: create_yearly_extremes_table_def year_rows_refund_table prepare_refund_table)
qed

text \<open>
  Claim C5. The most expensive meal of the table is not always the visit with the highest
  total. In the table of 2025-03-01 with a lunch of -5 at "A" and a dinner of -2 at "B",
  the visit with the highest total is the dinner. With the grouping that lists every pair
  of a date and a period (\<^verbatim>\<open>observed=False\<close>, the default of pandas 2), the records
  of the breakfast and of the late snack of that day, which have no transaction, have
  total 0, \<^verbatim>\<open>idxmax\<close> selects the first of them, and the table shows the no-record
  text for the most expensive meal although the day has two visits. The first meal, chosen
  by a sort that puts the records without a first time last, is the lunch; the breakfast
  and the late snack, which have no visit, show the no-record text. With the grouping
  that lists only the pairs that occur (\<^verbatim>\<open>observed=True\<close>, the default of pandas 3)
  the most expensive meal is the dinner.
\<close>

theorem most_expensive_meal_not_selected:
  "create_yearly_extremes_table False stable_sort_values no_parse refund_table 2025 =
     Done [(First_meal, [Place [65], Money (- 5), Moment (mk_ts 20148 12 0 0)]),
           (Earliest_breakfast, [No_record, No_record, No_record]),
           (Latest_night, [No_record, No_record, No_record]),
           (Most_expensive, [No_record, No_record, No_record])]
   \<and> create_yearly_extremes_table True stable_sort_values no_parse refund_table 2025 =
     Done [(First_meal, [Place [65], Money (- 5), Moment (mk_ts 20148 12 0 0)]),
           (Earliest_breakfast, [No_record, No_record, No_record]),
           (Latest_night, [No_record, No_record, No_record]),
           (Most_expensive, [Place [66], Money (- 2), Moment (mk_ts 20148 18 0 0)])]"
  by (simp only: extremes_refund_table [OF stable_sort_values_sorts] meal_summary_refund_rows
      meal_summary_refund_rows_observed extremes_rows_refund extremes_rows_refund_observed
      simp_thms)

end
